theory Spec2Isabelle
  imports Main "HOL-Library.Sublist"
begin

section \<open>Strings and numbers as the TypeScript code uses them\<close>

text \<open>
  A JavaScript string is modelled as a \<open>string\<close> (a list of 8-bit characters), a value
  that may be \<open>undefined\<close> as an \<open>option\<close>. Numbers are integers: fractional round
  numbers and numbers beyond the exactly represented range are outside the model.
\<close>

text \<open>The white space that \<open>String.prototype.trim\<close> removes, among the 8-bit characters:
  TAB, LF, VT, FF, CR, SPACE and the no-break space.\<close>

definition isWhiteSpace :: "char \<Rightarrow> bool" where
  "isWhiteSpace c = (of_char c \<in> {9, 10, 11, 12, 13, 32, 160 :: nat})"

definition trim :: "string \<Rightarrow> string" where
  "trim s = rev (dropWhile isWhiteSpace (rev (dropWhile isWhiteSpace s)))"

definition isDigit :: "char \<Rightarrow> bool" where
  "isDigit c = (48 \<le> (of_char c :: nat) \<and> (of_char c :: nat) \<le> 57)"

text \<open>\<open>s.split('/')\<close>: the pieces between the separators; the empty string gives one
  empty piece.\<close>

fun split :: "char \<Rightarrow> string \<Rightarrow> string list" where
  "split sep [] = [[]]"
| "split sep (c # cs) =
     (if c = sep then [] # split sep cs
      else (case split sep cs of
              [] \<Rightarrow> [[c]]
            | p # ps \<Rightarrow> (c # p) # ps))"

text \<open>A template literal renders a number in decimal.\<close>

definition digitChar :: "nat \<Rightarrow> char" where
  "digitChar d = ''0123456789'' ! d"

fun showNat :: "nat \<Rightarrow> string" where
  "showNat n =
     (if n < 10 then [digitChar n]
      else showNat (n div 10) @ [digitChar (n mod 10)])"

declare showNat.simps [simp del]

definition showInt :: "int \<Rightarrow> string" where
  "showInt i = (if i < 0 then CHR ''-'' # showNat (nat (- i)) else showNat (nat i))"

text \<open>A destructured array element that is missing is \<open>undefined\<close>, which a template
  literal renders as the text \<open>undefined\<close>.\<close>

definition elementText :: "string list \<Rightarrow> nat \<Rightarrow> string" where
  "elementText parts i = (if i < length parts then parts ! i else ''undefined'')"

section \<open>Data model (types.ts)\<close>

datatype ErrorType = FILE_FORMAT | BUSINESS_RULE | DATA_INTEGRITY

record ValidationError =
  type :: ErrorType
  message :: string
  row :: "nat option"
  column :: "string option"
  gradeID :: "string option"

text \<open>A row as the spreadsheet decoder delivers it (\<open>any\<close> in the source): a text cell
  may be missing; the round cell is \<open>None\<close> when it is empty or missing and \<open>Some n\<close>
  when it holds the integer \<open>n\<close>, as a number or as numeric text.\<close>

record ExcelRow =
  cellGradeCode :: "string option"
  cellHomeTeam :: "string option"
  cellAwayTeam :: "string option"
  cellDate :: "string option"
  cellRound :: "int option"
  cellGameType :: "string option"

record FixtureRow =
  gradeCode :: string
  homeTeam :: string
  awayTeam :: string
  date :: string
  round' :: int
  gameType :: "string option"

record Grade =
  gradeId :: string
  code :: string
  gradeSeasonID :: string
  noOfRounds :: int

record Team =
  teamId :: string
  name :: string
  teamGradeID :: string

record ValidationContext =
  seasonID :: string
  grades :: "Grade list"
  teams :: "Team list"
  existingFixtures :: "string \<rightharpoonup> bool"

section \<open>File format validation (interview-validation-service.ts)\<close>

text \<open>\<open>Date.parse\<close> is the platform's: it is a parameter \<open>dateParse\<close>, giving the time
  value in milliseconds or \<open>None\<close> for \<open>NaN\<close>. The clock \<open>new Date()\<close> is the parameter
  \<open>today\<close>.\<close>

definition parseDate :: "string \<Rightarrow> string" where
  "parseDate dateString =
     (let parts = split CHR ''/'' dateString;
          day = elementText parts 0; month = elementText parts 1; year = elementText parts 2
      in month @ ''/'' @ day @ ''/'' @ year)"

text \<open>The regular expression \<open>/^\d{2}\/\d{2}\/\d{4}$/\<close>.\<close>

definition dateRegex :: "string \<Rightarrow> bool" where
  "dateRegex s =
     (length s = 10 \<and> s ! 2 = CHR ''/'' \<and> s ! 5 = CHR ''/'' \<and>
      list_all (\<lambda>i. isDigit (s ! i)) [0, 1, 3, 4, 6, 7, 8, 9])"

definition isValidDate :: "(string \<Rightarrow> int option) \<Rightarrow> string option \<Rightarrow> bool" where
  "isValidDate dateParse dateString =
     (case dateString of
        None \<Rightarrow> False
      | Some s \<Rightarrow>
          if s = [] then False
          else dateRegex s \<and> dateParse (parseDate s) \<noteq> None)"

text \<open>\<open>!cell?.trim()\<close>: the cell is missing or blank.\<close>

definition blank :: "string option \<Rightarrow> bool" where
  "blank cell = (case cell of None \<Rightarrow> True | Some s \<Rightarrow> trim s = [])"

definition rowMessage :: "nat \<Rightarrow> string \<Rightarrow> string" where
  "rowMessage rowNumber txt = ''Row '' @ showNat rowNumber @ '': '' @ txt"

definition formatError :: "nat \<Rightarrow> string \<Rightarrow> string option \<Rightarrow> ValidationError" where
  "formatError rowNumber txt col =
     \<lparr>type = FILE_FORMAT, message = rowMessage rowNumber txt,
      row = Some rowNumber, column = col, gradeID = None\<rparr>"

text \<open>The checks of one pass of the validation loop, in the order of the source.\<close>

definition rowFormatErrors :: "(string \<Rightarrow> int option) \<Rightarrow> nat \<Rightarrow> ExcelRow \<Rightarrow> ValidationError list" where
  "rowFormatErrors dateParse rowNumber r =
     (if blank (cellGradeCode r)
      then [formatError rowNumber ''Grade Code is required'' (Some ''Grade Code'')] else []) @
     (if blank (cellHomeTeam r)
      then [formatError rowNumber ''Home Team is required'' (Some ''Home Team'')] else []) @
     (if blank (cellAwayTeam r)
      then [formatError rowNumber ''Away Team is required'' (Some ''Away Team'')] else []) @
     (if \<not> isValidDate dateParse (cellDate r)
      then [formatError rowNumber ''Invalid date format. Use DD/MM/YYYY'' (Some ''Date'')] else []) @
     (if (case cellRound r of None \<Rightarrow> True | Some n \<Rightarrow> n = 0 \<or> n < 1)
      then [formatError rowNumber ''Round must be a positive number'' (Some ''Round'')] else []) @
     (if cellHomeTeam r = cellAwayTeam r
      then [formatError rowNumber ''Home team and away team cannot be the same'' None] else [])"

text \<open>Building the accepted row: \<open>trim\<close> on a missing text cell is a TypeError, which
  the \<open>catch\<close> of \<open>parseAndValidateFile\<close> turns into the single "unable to parse" error;
  \<open>parseInt\<close> of an integer is that integer. The row is built only after every check of
  the pass succeeded, so all cells are present then (\<open>validationLoop_returns\<close> below):
  \<open>None\<close> is the TypeError and stands for the rows that cannot reach this point.\<close>

definition toFixtureRow :: "ExcelRow \<Rightarrow> FixtureRow option" where
  "toFixtureRow r =
     (case (cellGradeCode r, cellHomeTeam r, cellAwayTeam r, cellDate r, cellRound r) of
        (Some g, Some h, Some a, Some d, Some n) \<Rightarrow>
          Some \<lparr>gradeCode = trim g, homeTeam = trim h, awayTeam = trim a,
                date = d, round' = n, gameType = map_option trim (cellGameType r)\<rparr>
      | _ \<Rightarrow> None)"

text \<open>The \<open>forEach\<close> loop: \<open>index\<close> is the position of the row, the accumulators are the
  two arrays the loop pushes to. A row is accepted when no error collected so far carries
  its row number.\<close>

fun validationLoop ::
  "(string \<Rightarrow> int option) \<Rightarrow> nat \<Rightarrow> ExcelRow list \<Rightarrow>
   FixtureRow list \<times> ValidationError list \<Rightarrow> (FixtureRow list \<times> ValidationError list) option" where
  "validationLoop dateParse index [] acc = Some acc"
| "validationLoop dateParse index (r # rs) (fixtureRows, formatErrors) =
     (let rowNumber = index + 2;
          formatErrors' = formatErrors @ rowFormatErrors dateParse rowNumber r
      in if length (filter (\<lambda>e. row e = Some rowNumber) formatErrors') = 0
         then (case toFixtureRow r of
                 None \<Rightarrow> None
               | Some fr \<Rightarrow> validationLoop dateParse (Suc index) rs (fixtureRows @ [fr], formatErrors'))
         else validationLoop dateParse (Suc index) rs (fixtureRows, formatErrors'))"

text \<open>The decoder (\<open>simulateExcelParsing\<close>, a stub in the source) is a parameter: its
  result for the buffer, \<open>None\<close> when it throws.\<close>

definition unableToParse :: ValidationError where
  "unableToParse =
     \<lparr>type = FILE_FORMAT,
      message = ''Unable to parse Excel file. Please ensure file is in correct format.'',
      row = None, column = None, gradeID = None\<rparr>"

definition parseAndValidateFile ::
  "(string \<Rightarrow> int option) \<Rightarrow> ExcelRow list option \<Rightarrow> FixtureRow list \<times> ValidationError list" where
  "parseAndValidateFile dateParse decoded =
     (case decoded of
        None \<Rightarrow> ([], [unableToParse])
      | Some mockExcelData \<Rightarrow>
          (case validationLoop dateParse 0 mockExcelData ([], []) of
             None \<Rightarrow> ([], [unableToParse])
           | Some res \<Rightarrow> res))"

section \<open>Business rule validation (interview-validation-service.ts)\<close>

definition quoted :: "string \<Rightarrow> string" where
  "quoted s = [CHR 0x27] @ s @ [CHR 0x27]"

definition businessError :: "string \<Rightarrow> string \<Rightarrow> ValidationError" where
  "businessError msg gid =
     \<lparr>type = BUSINESS_RULE, message = msg, row = None, column = None, gradeID = Some gid\<rparr>"

text \<open>\<open>context.existingFixtures[grade.id]\<close> is truthy when the entry is there and true.\<close>

definition hasExistingFixtures :: "ValidationContext \<Rightarrow> string \<Rightarrow> bool" where
  "hasExistingFixtures ctx gid = (existingFixtures ctx gid = Some True)"

text \<open>\<open>fixtureDate < today\<close>: false when the date did not parse (\<open>NaN\<close>).\<close>

definition dateBefore :: "(string \<Rightarrow> int option) \<Rightarrow> string \<Rightarrow> int \<Rightarrow> bool" where
  "dateBefore dateParse d today =
     (case dateParse (parseDate d) of None \<Rightarrow> False | Some fixtureDate \<Rightarrow> fixtureDate < today)"

definition gradeMissingError :: "FixtureRow \<Rightarrow> ValidationError" where
  "gradeMissingError r =
     businessError (''Grade '' @ quoted (gradeCode r) @ '' does not exist in this season'')
       (gradeCode r)"

definition homeTeamError :: "FixtureRow \<Rightarrow> Grade \<Rightarrow> ValidationError" where
  "homeTeamError r g =
     businessError (''Home team '' @ quoted (homeTeam r) @ '' is not registered in grade '' @
        quoted (gradeCode r)) (gradeId g)"

definition awayTeamError :: "FixtureRow \<Rightarrow> Grade \<Rightarrow> ValidationError" where
  "awayTeamError r g =
     businessError (''Away team '' @ quoted (awayTeam r) @ '' is not registered in grade '' @
        quoted (gradeCode r)) (gradeId g)"

definition roundBoundError :: "FixtureRow \<Rightarrow> Grade \<Rightarrow> ValidationError" where
  "roundBoundError r g =
     businessError (''Round '' @ showInt (round' r) @ '' exceeds maximum rounds ('' @
        showInt (noOfRounds g) @ '') for grade '' @ quoted (gradeCode r)) (gradeId g)"

definition pastDateError :: "FixtureRow \<Rightarrow> Grade \<Rightarrow> ValidationError" where
  "pastDateError r g =
     businessError (''Cannot schedule games in the past for grade '' @ quoted (gradeCode r) @
        ''. Date: '' @ date r) (gradeId g)"

definition validateFixtureRow ::
  "(string \<Rightarrow> int option) \<Rightarrow> int \<Rightarrow> FixtureRow \<Rightarrow> ValidationContext \<Rightarrow> ValidationError list" where
  "validateFixtureRow dateParse today r ctx =
     (case find (\<lambda>g. code g = gradeCode r) (grades ctx) of
        None \<Rightarrow> [gradeMissingError r]
      | Some grade \<Rightarrow>
          (let gradeTeams = filter (\<lambda>t. teamGradeID t = gradeId grade) (teams ctx);
               home = find (\<lambda>t. name t = homeTeam r) gradeTeams;
               away = find (\<lambda>t. name t = awayTeam r) gradeTeams
           in (if home = None then [homeTeamError r grade] else []) @
              (if away = None then [awayTeamError r grade] else []) @
              (if round' r > noOfRounds grade then [roundBoundError r grade] else []) @
              (if dateBefore dateParse (date r) today \<and> \<not> hasExistingFixtures ctx (gradeId grade)
               then [pastDateError r grade] else [])))"

subsection \<open>Cross-row rules\<close>

definition integrityError :: "string \<Rightarrow> ValidationError" where
  "integrityError msg =
     \<lparr>type = DATA_INTEGRITY, message = msg, row = None, column = None, gradeID = None\<rparr>"

definition gameSignature :: "FixtureRow \<Rightarrow> string" where
  "gameSignature r =
     gradeCode r @ ''-'' @ homeTeam r @ ''-'' @ awayTeam r @ ''-'' @ showInt (round' r)"

definition homeKey :: "FixtureRow \<Rightarrow> string" where
  "homeKey r = gradeCode r @ ''-'' @ homeTeam r"

definition awayKey :: "FixtureRow \<Rightarrow> string" where
  "awayKey r = gradeCode r @ ''-'' @ awayTeam r"

definition duplicateGameError :: "FixtureRow \<Rightarrow> ValidationError" where
  "duplicateGameError r =
     integrityError (''Duplicate game: '' @ homeTeam r @ '' vs '' @ awayTeam r @ '' in round '' @
        showInt (round' r) @ '' of grade '' @ gradeCode r)"

definition doubleBookedError :: "string \<Rightarrow> FixtureRow \<Rightarrow> ValidationError" where
  "doubleBookedError team r =
     integrityError (''Team '' @ quoted team @ '' is scheduled for multiple games in round '' @
        showInt (round' r) @ '' of grade '' @ gradeCode r)"

text \<open>\<open>teamRoundTracker.get(key)\<close>; the loop reads a key only after it has set it.\<close>

definition trackerGet :: "(string \<rightharpoonup> int set) \<Rightarrow> string \<Rightarrow> int set" where
  "trackerGet tracker key = (case tracker key of None \<Rightarrow> {} | Some rounds \<Rightarrow> rounds)"

definition trackerEnsure :: "(string \<rightharpoonup> int set) \<Rightarrow> string \<Rightarrow> (string \<rightharpoonup> int set)" where
  "trackerEnsure tracker key = (if tracker key = None then tracker(key \<mapsto> {}) else tracker)"

definition trackerAdd :: "(string \<rightharpoonup> int set) \<Rightarrow> string \<Rightarrow> int \<Rightarrow> (string \<rightharpoonup> int set)" where
  "trackerAdd tracker key n = tracker(key \<mapsto> insert n (trackerGet tracker key))"

text \<open>The state of the loop: the errors pushed so far, \<open>gameSignatures\<close> and
  \<open>teamRoundTracker\<close>.\<close>

type_synonym crossRowState = "ValidationError list \<times> string set \<times> (string \<rightharpoonup> int set)"

definition crossRowStep :: "FixtureRow \<Rightarrow> crossRowState \<Rightarrow> crossRowState" where
  "crossRowStep r st =
     (case st of (errors, gameSignatures, teamRoundTracker) \<Rightarrow>
        let sig = gameSignature r;
            errors1 = errors @ (if sig \<in> gameSignatures then [duplicateGameError r] else []);
            gameSignatures' = insert sig gameSignatures;
            tracker1 = trackerEnsure (trackerEnsure teamRoundTracker (homeKey r)) (awayKey r);
            errors2 = errors1 @
              (if round' r \<in> trackerGet tracker1 (homeKey r)
               then [doubleBookedError (homeTeam r) r] else []);
            errors3 = errors2 @
              (if round' r \<in> trackerGet tracker1 (awayKey r)
               then [doubleBookedError (awayTeam r) r] else []);
            tracker2 = trackerAdd (trackerAdd tracker1 (homeKey r) (round' r)) (awayKey r) (round' r)
        in (errors3, gameSignatures', tracker2))"

definition validateCrossRowRules :: "FixtureRow list \<Rightarrow> ValidationError list" where
  "validateCrossRowRules fixtureRows = fst (fold crossRowStep fixtureRows ([], {}, Map.empty))"

subsection \<open>Context loading and the service entry point\<close>

text \<open>The repositories run queries on a database outside the code: each query is a
  parameter giving the rows the adapter returns, \<open>None\<close> when the call rejects.\<close>

record ValidationRepositories =
  findBySeasonIDAndCodes :: "string \<Rightarrow> string list \<Rightarrow> Grade list option"
  findTeamsBySeasonID :: "string \<Rightarrow> Team list option"
  hasFixturesRecords :: "string list \<Rightarrow> (string \<times> bool) list option"

text \<open>\<open>ValidationGradeRepository.hasFixtures\<close>: the records of the query, reduced to an
  object keyed by the grade code of each record.\<close>

definition hasFixtures :: "ValidationRepositories \<Rightarrow> string list \<Rightarrow> (string \<rightharpoonup> bool) option" where
  "hasFixtures repos gradeCodes =
     map_option (\<lambda>records. fold (\<lambda>(gradeCode, hasFixture) acc. acc(gradeCode \<mapsto> hasFixture))
                    records Map.empty)
       (hasFixturesRecords repos gradeCodes)"

text \<open>\<open>[...new Set(xs)]\<close>: the distinct elements in the order of their first occurrence.\<close>

fun unique :: "'a list \<Rightarrow> 'a list" where
  "unique [] = []"
| "unique (x # xs) = x # unique (filter (\<lambda>y. y \<noteq> x) xs)"

definition loadValidationContext ::
  "ValidationRepositories \<Rightarrow> string \<Rightarrow> FixtureRow list \<Rightarrow> ValidationContext option" where
  "loadValidationContext repos season fixtureRows =
     (let uniqueGradeCodes = unique (map gradeCode fixtureRows)
      in case (findBySeasonIDAndCodes repos season uniqueGradeCodes,
               findTeamsBySeasonID repos season,
               hasFixtures repos uniqueGradeCodes) of
           (Some gs, Some ts, Some ef) \<Rightarrow>
             Some \<lparr>seasonID = season, grades = gs, teams = ts, existingFixtures = ef\<rparr>
         | _ \<Rightarrow> None)"

text \<open>Every row is validated against the context with its own reading of the clock
  (\<open>new Date()\<close> inside \<open>validateFixtureRow\<close>): \<open>clock i\<close> is the reading for the row at
  position \<open>i\<close>.\<close>

definition validateRows ::
  "(string \<Rightarrow> int option) \<Rightarrow> (nat \<Rightarrow> int) \<Rightarrow> FixtureRow list \<Rightarrow> ValidationContext \<Rightarrow>
   ValidationError list" where
  "validateRows dateParse clock fixtureRows ctx =
     concat (map (\<lambda>(i, r). validateFixtureRow dateParse (clock i) r ctx) (enumerate 0 fixtureRows))"

definition validateBusinessRules ::
  "(string \<Rightarrow> int option) \<Rightarrow> (nat \<Rightarrow> int) \<Rightarrow> ValidationRepositories \<Rightarrow>
   FixtureRow list \<Rightarrow> string \<Rightarrow> ValidationError list option" where
  "validateBusinessRules dateParse clock repos fixtureRows season =
     (case loadValidationContext repos season fixtureRows of
        None \<Rightarrow> None
      | Some ctx \<Rightarrow>
          Some (validateRows dateParse clock fixtureRows ctx @ validateCrossRowRules fixtureRows))"

type_synonym Buffer = string

record FixtureUploadCommand =
  commandSeasonID :: string
  objectKey :: string

record S3FileValidation =
  fileBuffer :: "Buffer option"
  validationErrors :: "string list option"
  validatedObjectKey :: string

text \<open>What the service needs from outside: the S3 read, the decoder, \<open>Date.parse\<close>, the
  clock and the repositories.\<close>

record ValidationService =
  getObject :: "string \<Rightarrow> string \<Rightarrow> Buffer option"
  simulateExcelParsing :: "Buffer \<Rightarrow> ExcelRow list option"
  dateParse :: "string \<Rightarrow> int option"
  clock :: "nat \<Rightarrow> int"
  repositories :: ValidationRepositories

definition accessFailed :: "FixtureUploadCommand \<Rightarrow> S3FileValidation" where
  "accessFailed command =
     \<lparr>fileBuffer = None,
      validationErrors = Some [''Failed to access or process uploaded file''],
      validatedObjectKey = objectKey command\<rparr>"

definition validateS3File :: "ValidationService \<Rightarrow> FixtureUploadCommand \<Rightarrow> S3FileValidation" where
  "validateS3File svc command =
     (case getObject svc ''upload-bucket'' (objectKey command) of
        None \<Rightarrow> accessFailed command
      | Some buf \<Rightarrow>
          (case parseAndValidateFile (dateParse svc) (simulateExcelParsing svc buf) of
             (fixtureRows, formatErrors) \<Rightarrow>
               if length formatErrors > 0
               then \<lparr>fileBuffer = None,
                     validationErrors = Some (map message formatErrors),
                     validatedObjectKey = objectKey command\<rparr>
               else (case validateBusinessRules (dateParse svc) (clock svc) (repositories svc)
                            fixtureRows (commandSeasonID command) of
                       None \<Rightarrow> accessFailed command
                     | Some businessValidationErrors \<Rightarrow>
                         (let allErrors = formatErrors @ businessValidationErrors
                          in \<lparr>fileBuffer = Some buf,
                              validationErrors =
                                (if length allErrors > 0 then Some (map message allErrors) else None),
                              validatedObjectKey = objectKey command\<rparr>))))"

section \<open>The upload handler (interview-simplified-fixture-handler.ts)\<close>

record RoundInfo =
  sequenceNo :: int
  provisionalDate :: string

record GameData =
  gameId :: string
  homeTeamID :: string
  awayTeamID :: string
  gameDate :: string
  provisionalDates :: "string list option"

record RoundParam =
  roundInfo :: RoundInfo
  games :: "GameData list"

record Round =
  roundId :: string
  roundGradeID :: string
  roundSequenceNo :: int
  roundProvisionalDate :: string

record GameNode =
  nodeId :: string
  nodeGradeID :: string
  nodeHomeTeamID :: string
  nodeAwayTeamID :: string
  nodeDate :: string
  nodeProvisionalDates :: "string list"

datatype CompetitionType = DOMESTIC | TOURNAMENT

record Competition =
  competitionId :: string
  competitionSeasonID :: string
  competitionType :: CompetitionType

record GradeAttributes =
  attrNoOfRounds :: nat
  startDate :: "string option"

text \<open>An object indexed by grade id (\<open>roundsParams\<close>) is the list of its entries in the
  order of \<open>Object.keys\<close>; \<open>roundsParams[gradeID]\<close> is \<open>map_of\<close>.\<close>

type_synonym RoundsParams = "(string \<times> RoundParam list) list"

definition suppliedFor :: "RoundsParams \<Rightarrow> string \<Rightarrow> RoundParam list" where
  "suppliedFor roundsParams g = (case map_of roundsParams g of Some rps \<Rightarrow> rps | None \<Rightarrow> [])"

text \<open>\<open>existingRounds[0]?.provisionalDate || suppliedRounds[0]?.round?.provisionalDate\<close>:
  the empty string is falsy, so an empty first date falls through to the supplied round.\<close>

definition firstDate :: "Round list \<Rightarrow> RoundParam list \<Rightarrow> string option" where
  "firstDate existingRounds suppliedRounds =
     (let supplied = (case suppliedRounds of [] \<Rightarrow> None
                      | p # _ \<Rightarrow> Some (provisionalDate (roundInfo p)))
      in case existingRounds of
           [] \<Rightarrow> supplied
         | r # _ \<Rightarrow> if roundProvisionalDate r \<noteq> [] then Some (roundProvisionalDate r) else supplied)"

text \<open>\<open>calculateGradeAttributes\<close>, given the answer of \<open>roundRepo.findByGradeIDs\<close>.\<close>

definition calculateGradeAttributes ::
  "(string \<rightharpoonup> Round list) \<Rightarrow> RoundsParams \<Rightarrow> (string \<rightharpoonup> GradeAttributes)" where
  "calculateGradeAttributes allRoundsByGrade roundsParams =
     fold (\<lambda>g acc.
        let existingRounds = (case allRoundsByGrade g of Some rs \<Rightarrow> rs | None \<Rightarrow> []);
            suppliedRounds = suppliedFor roundsParams g;
            totalRoundsCount = length existingRounds + length suppliedRounds
        in acc(g \<mapsto> \<lparr>attrNoOfRounds = totalRoundsCount,
                       startDate = firstDate existingRounds suppliedRounds\<rparr>))
       (map fst roundsParams) Map.empty"

record PersistResult =
  persistedGradeIDs :: "string list"
  persistedTeamIDs :: "string list"
  persistedGameIDs :: "string list"

text \<open>The calls of the handler that change the outside world, in the order made.\<close>

datatype Effect =
  S3Copy string string string
| Persist RoundsParams string "(string \<times> GradeAttributes option) list"

record FixtureRepositories =
  gradeHasFixtures :: "string list \<Rightarrow> (string \<rightharpoonup> bool) option"
  gameFindByGradeIDs :: "string list \<Rightarrow> (string \<times> GameNode list) list option"
  competitionFindBySeasonID :: "string \<Rightarrow> Competition option option"
  roundFindByGradeIDs :: "string list \<Rightarrow> (string \<rightharpoonup> Round list) option"
  persistServicePersist ::
    "RoundsParams \<Rightarrow> string \<Rightarrow> (string \<rightharpoonup> GradeAttributes) \<Rightarrow> PersistResult option"

record Handler =
  validationService :: ValidationService
  s3Copy :: "string \<Rightarrow> string \<Rightarrow> string \<Rightarrow> bool"
  parseFixtureFile :: "Buffer \<Rightarrow> string \<Rightarrow> RoundsParams option"
  fixtureRepositories :: FixtureRepositories

record UploadResult =
  uploadGradeIDs :: "string list"
  uploadTeamIDs :: "string list"
  newGameIDs :: "string list"
  existingGames :: "GameNode list"
  hasFixtureByGradeIDs :: "string \<rightharpoonup> bool"

definition competitionTypeName :: "Competition option \<Rightarrow> string" where
  "competitionTypeName c =
     (case c of None \<Rightarrow> ''DOMESTIC''
      | Some cmp \<Rightarrow> (case competitionType cmp of DOMESTIC \<Rightarrow> ''DOMESTIC'' | TOURNAMENT \<Rightarrow> ''TOURNAMENT''))"

text \<open>\<open>processFixtureUpload\<close>: the result (\<open>None\<close> when a step throws) and the effects.\<close>

definition processFixtureUpload :: "Handler \<Rightarrow> Buffer \<Rightarrow> string \<Rightarrow> UploadResult option \<times> Effect list" where
  "processFixtureUpload h buf season =
     (let repos = fixtureRepositories h in
      case parseFixtureFile h buf season of
        None \<Rightarrow> (None, [])
      | Some roundsParams \<Rightarrow>
          (let ids = map fst roundsParams in
           case (gradeHasFixtures repos ids, gameFindByGradeIDs repos ids,
                 competitionFindBySeasonID repos season) of
             (Some hasFixtureByGrade, Some gamesByGradeIDs, Some competition) \<Rightarrow>
               (case roundFindByGradeIDs repos ids of
                  None \<Rightarrow> (None, [])
                | Some allRoundsByGrade \<Rightarrow>
                    (let gradeAttributes = calculateGradeAttributes allRoundsByGrade roundsParams;
                         ctype = competitionTypeName competition;
                         call = Persist roundsParams ctype (map (\<lambda>g. (g, gradeAttributes g)) ids)
                     in case persistServicePersist repos roundsParams ctype gradeAttributes of
                          None \<Rightarrow> (None, [call])
                        | Some persistResult \<Rightarrow>
                            (Some \<lparr>uploadGradeIDs = persistedGradeIDs persistResult,
                                   uploadTeamIDs = persistedTeamIDs persistResult,
                                   newGameIDs = persistedGameIDs persistResult,
                                   existingGames = concat (map snd gamesByGradeIDs),
                                   hasFixtureByGradeIDs = hasFixtureByGrade\<rparr>, [call])))
           | _ \<Rightarrow> (None, [])))"

datatype Event =
  CalculateLadder string
| GamesAllocated "GameNode list"
| GamesAllocationCreated "string list"
| TeamUpdated "string list"
| FixtureUpdated string
| FixtureCreated string

definition getFixtureWebhookEvents :: "string list \<Rightarrow> (string \<rightharpoonup> bool) \<Rightarrow> Event list" where
  "getFixtureWebhookEvents ids hasFixtureByGrade =
     map (\<lambda>g. if hasFixtureByGrade g = Some True then FixtureUpdated g else FixtureCreated g) ids"

definition generateEvents :: "UploadResult \<Rightarrow> Event list" where
  "generateEvents uploadResult =
     map CalculateLadder (uploadGradeIDs uploadResult) @
     (if length (existingGames uploadResult) > 0
      then [GamesAllocated (existingGames uploadResult)] else []) @
     (if length (newGameIDs uploadResult) > 0
      then [GamesAllocationCreated (newGameIDs uploadResult)] else []) @
     [TeamUpdated (uploadTeamIDs uploadResult)] @
     getFixtureWebhookEvents (uploadGradeIDs uploadResult) (hasFixtureByGradeIDs uploadResult)"

record BulkFixtureUpload =
  errors :: "string list option"
  fixture :: "unit option"

record HandleResult =
  result :: BulkFixtureUpload
  events :: "Event list"

text \<open>\<open>handle\<close>: what it returns (\<open>Inl\<close> is the error it throws) and the effects it had.
  \<open>validationErrors?.length\<close> is truthy for a list that is there and not empty. With no
  validation errors the buffer is there (\<open>fileBuffer!\<close>); the decoder of a missing buffer
  is taken to throw.\<close>

definition handle :: "Handler \<Rightarrow> FixtureUploadCommand \<Rightarrow> (string + HandleResult) \<times> Effect list" where
  "handle h command =
     (let v = validateS3File (validationService h) command in
      if (case validationErrors v of None \<Rightarrow> False | Some es \<Rightarrow> length es > 0)
      then (Inr \<lparr>result = \<lparr>errors = validationErrors v, fixture = None\<rparr>, events = []\<rparr>, [])
      else
        (let copyCall = S3Copy ''source-bucket'' ''dest-bucket'' (validatedObjectKey v) in
         if \<not> s3Copy h ''source-bucket'' ''dest-bucket'' (validatedObjectKey v)
         then (Inl ''Fixture upload failed'', [copyCall])
         else (case fileBuffer v of
                 None \<Rightarrow> (Inl ''Fixture upload failed'', [copyCall])
               | Some buf \<Rightarrow>
                   (case processFixtureUpload h buf (commandSeasonID command) of
                      (None, effects) \<Rightarrow> (Inl ''Fixture upload failed'', copyCall # effects)
                    | (Some uploadResult, effects) \<Rightarrow>
                        (Inr \<lparr>result = \<lparr>errors = None, fixture = None\<rparr>,
                              events = generateEvents uploadResult\<rparr>, copyCall # effects)))))"

section \<open>The persist service (repository.ts, the Postgres variant)\<close>

text \<open>
  The service sends SQL statements to a database client. The database is outside the
  code, so the client is modelled by what the statements of the source mean in SQL:
  \<^item> the tables \<open>rounds\<close>, \<open>games\<close> and \<open>grades\<close>, as lists of rows;
  \<^item> \<open>BEGIN\<close> opens a transaction on a copy of the committed tables, \<open>COMMIT\<close> makes
    the copy the committed tables, \<open>ROLLBACK\<close> drops it;
  \<^item> \<open>INSERT INTO rounds ... ON CONFLICT (grade_id, sequence_no) DO UPDATE\<close> updates
    the row with that key when there is one and inserts a row with a generated id
    otherwise; the generator draws an id for every such statement, also when the row is
    there already, and is not transactional;
  \<^item> \<open>INSERT INTO games\<close> has no conflict clause: it appends a row, or fails on a
    repeated id when the schema (not in the repository) keys \<open>games\<close> by \<open>id\<close>, which
    is the parameter \<open>gameIdUnique\<close>;
  \<^item> any statement, \<open>ROLLBACK\<close> included, may fail for reasons of its own (connection,
    timeout): \<open>failsAt n\<close> says that the \<open>n\<close>-th statement sent on the client does; a
    statement that fails changes nothing, so a failed \<open>ROLLBACK\<close> leaves the transaction
    open.
\<close>

record RoundRow =
  round_id :: nat
  grade_id :: string
  sequence_no :: int
  provisional_date :: string

record GameRow =
  game_id :: string
  game_round_id :: nat
  home_team_id :: string
  away_team_id :: string
  game_date :: string
  provisional_dates :: "string list"

record GradeRow =
  grade_row_id :: string
  no_of_rounds :: "nat option"
  start_date :: "string option"

record Tables =
  rounds :: "RoundRow list"
  gamesTable :: "GameRow list"
  gradesTable :: "GradeRow list"

datatype Statement =
  BEGIN
| COMMIT
| ROLLBACK
| CreateRound string int string
| CreateGame string nat string string string "string list"
| UpdateGrade string nat "string option"

datatype QueryFailure = StatementFailed nat | UniqueViolation string | TypeError

datatype QueryRows = NoRows | RoundIdRow nat | GameIdRow string

record Database =
  failsAt :: "nat \<Rightarrow> bool"
  gameIdUnique :: bool

record Client =
  committed :: Tables
  pending :: "Tables option"
  nextRoundId :: nat
  queryLog :: "(Statement \<times> bool) list"

definition sameRoundKey :: "string \<Rightarrow> int \<Rightarrow> RoundRow \<Rightarrow> bool" where
  "sameRoundKey g n r = (grade_id r = g \<and> sequence_no r = n)"

text \<open>The tables a statement sees and writes: the transaction's when one is open.\<close>

definition current :: "Client \<Rightarrow> Tables" where
  "current c = (case pending c of Some t \<Rightarrow> t | None \<Rightarrow> committed c)"

definition writeTables :: "Tables \<Rightarrow> Client \<Rightarrow> Client" where
  "writeTables t c = (case pending c of Some _ \<Rightarrow> c\<lparr>pending := Some t\<rparr> | None \<Rightarrow> c\<lparr>committed := t\<rparr>)"

definition logged :: "Statement \<Rightarrow> bool \<Rightarrow> Client \<Rightarrow> Client" where
  "logged stmt ok c = c\<lparr>queryLog := queryLog c @ [(stmt, ok)]\<rparr>"

text \<open>\<open>client.query\<close>: the rows returned or the failure thrown, and the client after.\<close>

definition query :: "Database \<Rightarrow> Statement \<Rightarrow> Client \<Rightarrow> (QueryFailure + QueryRows) \<times> Client" where
  "query db stmt c =
     (let n = length (queryLog c); t = current c in
      if failsAt db n then (Inl (StatementFailed n), logged stmt False c)
      else (case stmt of
          BEGIN \<Rightarrow> (Inr NoRows, logged stmt True (c\<lparr>pending := Some t\<rparr>))
        | COMMIT \<Rightarrow> (Inr NoRows, logged stmt True (c\<lparr>committed := t, pending := None\<rparr>))
        | ROLLBACK \<Rightarrow> (Inr NoRows, logged stmt True (c\<lparr>pending := None\<rparr>))
        | CreateRound g sq d \<Rightarrow>
            (case find (sameRoundKey g sq) (rounds t) of
               Some r \<Rightarrow>
                 (Inr (RoundIdRow (round_id r)),
                  logged stmt True
                    (writeTables (t\<lparr>rounds := map (\<lambda>x. if sameRoundKey g sq x
                                                  then x\<lparr>provisional_date := d\<rparr> else x) (rounds t)\<rparr>)
                       (c\<lparr>nextRoundId := Suc (nextRoundId c)\<rparr>)))
             | None \<Rightarrow>
                 (Inr (RoundIdRow (nextRoundId c)),
                  logged stmt True
                    (writeTables (t\<lparr>rounds := rounds t @
                              [\<lparr>round_id = nextRoundId c, grade_id = g, sequence_no = sq,
                                provisional_date = d\<rparr>]\<rparr>)
                       (c\<lparr>nextRoundId := Suc (nextRoundId c)\<rparr>))))
        | CreateGame gid rid home away d pds \<Rightarrow>
            if gameIdUnique db \<and> gid \<in> set (map game_id (gamesTable t))
            then (Inl (UniqueViolation gid), logged stmt False c)
            else (Inr (GameIdRow gid),
                  logged stmt True
                    (writeTables (t\<lparr>gamesTable := gamesTable t @
                              [\<lparr>game_id = gid, game_round_id = rid, home_team_id = home,
                                away_team_id = away, game_date = d, provisional_dates = pds\<rparr>]\<rparr>) c))
        | UpdateGrade g n sd \<Rightarrow>
            (Inr NoRows,
             logged stmt True
               (writeTables (t\<lparr>gradesTable := map (\<lambda>x. if grade_row_id x = g
                                                 then x\<lparr>no_of_rounds := Some n, start_date := sd\<rparr>
                                                 else x) (gradesTable t)\<rparr>) c))))"

text \<open>The loop of \<open>persistRound\<close> over the games of a round; the accumulator holds
  \<open>gameIDs\<close> and \<open>teamIDs\<close>. \<open>rows[0].game_id\<close> of a result without that row is a
  TypeError.\<close>

fun persistGames ::
  "Database \<Rightarrow> nat \<Rightarrow> GameData list \<Rightarrow> string list \<times> string list \<Rightarrow> Client \<Rightarrow>
   (QueryFailure + string list \<times> string list) \<times> Client" where
  "persistGames db roundID [] acc c = (Inr acc, c)"
| "persistGames db roundID (gameData # rest) (gameIDs, teamIDs) c =
     (case query db (CreateGame (gameId gameData) roundID (homeTeamID gameData)
                       (awayTeamID gameData) (gameDate gameData)
                       (case provisionalDates gameData of Some ds \<Rightarrow> ds | None \<Rightarrow> [])) c of
        (Inl e, c') \<Rightarrow> (Inl e, c')
      | (Inr (GameIdRow gid), c') \<Rightarrow>
          persistGames db roundID rest
            (gameIDs @ [gid], teamIDs @ [homeTeamID gameData, awayTeamID gameData]) c'
      | (Inr _, c') \<Rightarrow> (Inl TypeError, c'))"

definition persistRound ::
  "Database \<Rightarrow> string \<Rightarrow> RoundParam \<Rightarrow> Client \<Rightarrow>
   (QueryFailure + string list \<times> string list) \<times> Client" where
  "persistRound db g roundParam c =
     (case query db (CreateRound g (sequenceNo (roundInfo roundParam))
                       (provisionalDate (roundInfo roundParam))) c of
        (Inl e, c') \<Rightarrow> (Inl e, c')
      | (Inr (RoundIdRow roundID), c') \<Rightarrow> persistGames db roundID (games roundParam) ([], []) c'
      | (Inr _, c') \<Rightarrow> (Inl TypeError, c'))"

text \<open>\<open>updateGradeAttributes\<close>: reading a field of missing attributes is a TypeError.\<close>

definition updateGradeAttributes ::
  "Database \<Rightarrow> string \<Rightarrow> GradeAttributes option \<Rightarrow> Client \<Rightarrow> (QueryFailure + unit) \<times> Client" where
  "updateGradeAttributes db g attributes c =
     (case attributes of
        None \<Rightarrow> (Inl TypeError, c)
      | Some a \<Rightarrow>
          (case query db (UpdateGrade g (attrNoOfRounds a) (startDate a)) c of
             (Inl e, c') \<Rightarrow> (Inl e, c')
           | (Inr _, c') \<Rightarrow> (Inr (), c')))"

text \<open>The inner loop of \<open>persist\<close>, over the rounds of a grade; the accumulator holds
  \<open>allGameIDs\<close> and \<open>allTeamIDs\<close>.\<close>

fun persistRounds ::
  "Database \<Rightarrow> string \<Rightarrow> RoundParam list \<Rightarrow> string list \<times> string list \<Rightarrow> Client \<Rightarrow>
   (QueryFailure + string list \<times> string list) \<times> Client" where
  "persistRounds db g [] acc c = (Inr acc, c)"
| "persistRounds db g (roundParam # rest) (allGameIDs, allTeamIDs) c =
     (case persistRound db g roundParam c of
        (Inl e, c') \<Rightarrow> (Inl e, c')
      | (Inr (gameIDs, teamIDs), c') \<Rightarrow>
          persistRounds db g rest (allGameIDs @ gameIDs, allTeamIDs @ teamIDs) c')"

text \<open>The outer loop of \<open>persist\<close>, over the grades.\<close>

fun persistGrades ::
  "Database \<Rightarrow> RoundsParams \<Rightarrow> (string \<rightharpoonup> GradeAttributes) \<Rightarrow> string list \<Rightarrow>
   string list \<times> string list \<Rightarrow> Client \<Rightarrow>
   (QueryFailure + string list \<times> string list) \<times> Client" where
  "persistGrades db roundsParams gradeAttributes [] acc c = (Inr acc, c)"
| "persistGrades db roundsParams gradeAttributes (g # rest) acc c =
     (case persistRounds db g (suppliedFor roundsParams g) acc c of
        (Inl e, c') \<Rightarrow> (Inl e, c')
      | (Inr acc', c') \<Rightarrow>
          (case updateGradeAttributes db g (gradeAttributes g) c' of
             (Inl e, c'') \<Rightarrow> (Inl e, c'')
           | (Inr _, c'') \<Rightarrow> persistGrades db roundsParams gradeAttributes rest acc' c''))"

text \<open>The \<open>try\<close> block of \<open>persist\<close>.\<close>

definition persistBody ::
  "Database \<Rightarrow> RoundsParams \<Rightarrow> (string \<rightharpoonup> GradeAttributes) \<Rightarrow> Client \<Rightarrow>
   (QueryFailure + PersistResult) \<times> Client" where
  "persistBody db roundsParams gradeAttributes c =
     (let ids = map fst roundsParams in
      case query db BEGIN c of
        (Inl e, c1) \<Rightarrow> (Inl e, c1)
      | (Inr _, c1) \<Rightarrow>
          (case persistGrades db roundsParams gradeAttributes ids ([], []) c1 of
             (Inl e, c2) \<Rightarrow> (Inl e, c2)
           | (Inr (allGameIDs, allTeamIDs), c2) \<Rightarrow>
               (case query db COMMIT c2 of
                  (Inl e, c3) \<Rightarrow> (Inl e, c3)
                | (Inr _, c3) \<Rightarrow>
                    (Inr \<lparr>persistedGradeIDs = ids,
                          persistedTeamIDs = unique allTeamIDs,
                          persistedGameIDs = allGameIDs\<rparr>, c3))))"

text \<open>\<open>persist\<close>: the \<open>catch\<close> sends \<open>ROLLBACK\<close> and throws the error again; when the
  \<open>ROLLBACK\<close> itself fails, its failure is what is thrown.\<close>

definition persist ::
  "Database \<Rightarrow> RoundsParams \<Rightarrow> string \<Rightarrow> (string \<rightharpoonup> GradeAttributes) \<Rightarrow> Client \<Rightarrow>
   (QueryFailure + PersistResult) \<times> Client" where
  "persist db roundsParams ctype gradeAttributes c =
     (case persistBody db roundsParams gradeAttributes c of
        (Inr res, c') \<Rightarrow> (Inr res, c')
      | (Inl e, c') \<Rightarrow>
          (case query db ROLLBACK c' of
             (Inl rollbackError, c'') \<Rightarrow> (Inl rollbackError, c'')
           | (Inr _, c'') \<Rightarrow> (Inl e, c'')))"

section \<open>Notions used to state the properties\<close>

text \<open>A past-date violation is recognised by the text its message starts with.\<close>

definition isPastDateError :: "ValidationError \<Rightarrow> bool" where
  "isPastDateError e = prefix ''Cannot schedule games in the past'' (message e)"

text \<open>What the loop of \<open>validateCrossRowRules\<close> has recorded after the rows \<open>p\<close>: the
  rounds seen for a team key, and the tracker as a whole.\<close>

definition roundsSeen :: "FixtureRow list \<Rightarrow> string \<Rightarrow> int set" where
  "roundsSeen p k = set (map round' (filter (\<lambda>x. homeKey x = k \<or> awayKey x = k) p))"

definition trackerOf :: "FixtureRow list \<Rightarrow> (string \<rightharpoonup> int set)" where
  "trackerOf p k =
     (if k \<in> set (map homeKey p) \<union> set (map awayKey p) then Some (roundsSeen p k) else None)"

text \<open>The violations a row raises when the rows \<open>p\<close> came before it, and the violations of
  a list of rows that follow \<open>p\<close>.\<close>

definition rowErrors :: "FixtureRow list \<Rightarrow> FixtureRow \<Rightarrow> ValidationError list" where
  "rowErrors p r =
     (if gameSignature r \<in> set (map gameSignature p) then [duplicateGameError r] else []) @
     (if round' r \<in> roundsSeen p (homeKey r) then [doubleBookedError (homeTeam r) r] else []) @
     (if round' r \<in> roundsSeen p (awayKey r) then [doubleBookedError (awayTeam r) r] else [])"

fun errorsAfter :: "FixtureRow list \<Rightarrow> FixtureRow list \<Rightarrow> ValidationError list" where
  "errorsAfter p [] = []"
| "errorsAfter p (r # rs) = rowErrors p r @ errorsAfter (p @ [r]) rs"


subsection \<open>Sample data\<close>

text \<open>A grade with its teams, a row dated 15 January 2020, and a \<open>Date.parse\<close> that knows
  two dates (their time values are those of midnight UTC).\<close>

definition sampleGrade :: Grade where
  "sampleGrade = \<lparr>gradeId = ''g1'', code = ''A1'', gradeSeasonID = ''s1'', noOfRounds = 12\<rparr>"

definition sampleRow :: FixtureRow where
  "sampleRow = \<lparr>gradeCode = ''A1'', homeTeam = ''Lions'', awayTeam = ''Tigers'',
     date = ''15/01/2020'', round' = 1, gameType = None\<rparr>"

definition otherRow :: FixtureRow where
  "otherRow = \<lparr>gradeCode = ''A1'', homeTeam = ''Bears'', awayTeam = ''Wolves'',
     date = ''15/01/2020'', round' = 1, gameType = None\<rparr>"

text \<open>The context records the same answer under the grade's id and under its code.\<close>

definition sampleContext :: "bool \<Rightarrow> ValidationContext" where
  "sampleContext hasFixture =
     \<lparr>seasonID = ''s1'', grades = [sampleGrade],
      teams = [\<lparr>teamId = ''t1'', name = ''Lions'', teamGradeID = ''g1''\<rparr>,
               \<lparr>teamId = ''t2'', name = ''Tigers'', teamGradeID = ''g1''\<rparr>],
      existingFixtures = [''g1'' \<mapsto> hasFixture, ''A1'' \<mapsto> hasFixture]\<rparr>"

definition sampleDateParse :: "string \<Rightarrow> int option" where
  "sampleDateParse s =
     (if s = ''01/15/2020'' then Some 1579046400000
      else if s = ''03/15/2024'' then Some 1710460800000 else None)"

text \<open>1 January 2025, midnight UTC.\<close>

definition sampleToday :: int where
  "sampleToday = 1735689600000"

definition lionsRow :: ExcelRow where
  "lionsRow = \<lparr>cellGradeCode = Some ''A1'', cellHomeTeam = Some ''Lions'',
     cellAwayTeam = Some ''Lions '', cellDate = Some ''15/03/2024'', cellRound = Some 1,
     cellGameType = None\<rparr>"

text \<open>File format validation row by row: the violations of all rows from position
  \<open>index\<close> on, and the rows accepted among them.\<close>

definition formatViolationsFrom :: "(string \<Rightarrow> int option) \<Rightarrow> nat \<Rightarrow> ExcelRow list \<Rightarrow> ValidationError list" where
  "formatViolationsFrom dp index rs =
     concat (map (\<lambda>(i, r). rowFormatErrors dp (i + 2) r) (enumerate index rs))"

definition acceptedRowsFrom :: "(string \<Rightarrow> int option) \<Rightarrow> nat \<Rightarrow> ExcelRow list \<Rightarrow> FixtureRow list" where
  "acceptedRowsFrom dp index rs =
     List.map_filter (\<lambda>(i, r). if rowFormatErrors dp (i + 2) r = [] then toFixtureRow r else None)
       (enumerate index rs)"

text \<open>The specification's union of violations: all file format violations, all per-row
  business rule violations of the accepted rows and all cross-row violations, for an
  upload that can be read and a context that can be loaded.\<close>

definition unionOfViolations :: "ValidationService \<Rightarrow> FixtureUploadCommand \<Rightarrow> ValidationError list option" where
  "unionOfViolations svc command =
     (case getObject svc ''upload-bucket'' (objectKey command) of
        None \<Rightarrow> None
      | Some buf \<Rightarrow>
          (case parseAndValidateFile (dateParse svc) (simulateExcelParsing svc buf) of
             (fixtureRows, formatErrors) \<Rightarrow>
               (case loadValidationContext (repositories svc) (commandSeasonID command) fixtureRows of
                  None \<Rightarrow> None
                | Some ctx \<Rightarrow>
                    Some (formatErrors @ validateRows (dateParse svc) (clock svc) fixtureRows ctx @
                          validateCrossRowRules fixtureRows))))"

text \<open>More sample data: a well-formed row, a season without grades and one with the
  sample grade, a service and a handler around them.\<close>

definition tigersRow :: ExcelRow where
  "tigersRow = \<lparr>cellGradeCode = Some ''A1'', cellHomeTeam = Some ''Lions'',
     cellAwayTeam = Some ''Tigers'', cellDate = Some ''15/03/2024'', cellRound = Some 1,
     cellGameType = None\<rparr>"

definition acceptedTigersRow :: FixtureRow where
  "acceptedTigersRow = \<lparr>gradeCode = ''A1'', homeTeam = ''Lions'', awayTeam = ''Tigers'',
     date = ''15/03/2024'', round' = 1, gameType = None\<rparr>"

definition emptySeason :: ValidationRepositories where
  "emptySeason =
     \<lparr>findBySeasonIDAndCodes = (\<lambda>season codes. Some []),
      findTeamsBySeasonID = (\<lambda>season. Some []),
      hasFixturesRecords = (\<lambda>codes. Some [])\<rparr>"

definition sampleSeason :: ValidationRepositories where
  "sampleSeason =
     \<lparr>findBySeasonIDAndCodes = (\<lambda>season codes. Some [sampleGrade]),
      findTeamsBySeasonID = (\<lambda>season. Some (teams (sampleContext False))),
      hasFixturesRecords = (\<lambda>codes. Some (map (\<lambda>c. (c, False)) codes))\<rparr>"

definition sampleService :: "ValidationRepositories \<Rightarrow> ExcelRow list \<Rightarrow> int \<Rightarrow> ValidationService" where
  "sampleService repos rs today =
     \<lparr>getObject = (\<lambda>bucket key. Some ''excel-file-content''),
      simulateExcelParsing = (\<lambda>buf. Some rs),
      dateParse = sampleDateParse,
      clock = (\<lambda>i. today),
      repositories = repos\<rparr>"

definition sampleHandler :: "ValidationService \<Rightarrow> Handler" where
  "sampleHandler svc =
     \<lparr>validationService = svc,
      s3Copy = (\<lambda>source dest key. True),
      parseFixtureFile = (\<lambda>buf season. Some []),
      fixtureRepositories =
        \<lparr>gradeHasFixtures = (\<lambda>ids. Some Map.empty),
         gameFindByGradeIDs = (\<lambda>ids. Some []),
         competitionFindBySeasonID = (\<lambda>season. Some None),
         roundFindByGradeIDs = (\<lambda>ids. Some Map.empty),
         persistServicePersist = (\<lambda>roundsParams ctype attrs.
            Some \<lparr>persistedGradeIDs = [], persistedTeamIDs = [], persistedGameIDs = []\<rparr>)\<rparr>\<rparr>"

definition sampleCommand :: FixtureUploadCommand where
  "sampleCommand = \<lparr>commandSeasonID = ''s1'', objectKey = ''fixtures.xlsx''\<rparr>"


text \<open>The rounds of a grade already persisted, and the date of the first supplied round.\<close>

definition existingFor :: "(string \<rightharpoonup> Round list) \<Rightarrow> string \<Rightarrow> Round list" where
  "existingFor allRoundsByGrade g = (case allRoundsByGrade g of Some rs \<Rightarrow> rs | None \<Rightarrow> [])"

definition firstSuppliedDate :: "RoundParam list \<Rightarrow> string option" where
  "firstSuppliedDate suppliedRounds =
     (case suppliedRounds of [] \<Rightarrow> None | p # _ \<Rightarrow> Some (provisionalDate (roundInfo p)))"

definition emptyDateRound :: Round where
  "emptyDateRound = \<lparr>roundId = ''r1'', roundGradeID = ''g1'', roundSequenceNo = 1,
     roundProvisionalDate = ''''\<rparr>"

definition datedRound :: Round where
  "datedRound = \<lparr>roundId = ''r1'', roundGradeID = ''g1'', roundSequenceNo = 1,
     roundProvisionalDate = ''2024-03-15''\<rparr>"

definition suppliedRound :: RoundParam where
  "suppliedRound = \<lparr>roundInfo = \<lparr>sequenceNo = 2, provisionalDate = ''2025-01-01''\<rparr>, games = []\<rparr>"

text \<open>Notions for the persist service: the statements sent between two states of the
  client; the ids in the \<open>games\<close> table a statement sees; the games of an upload; the keys
  of the \<open>rounds\<close> table; the statements that read or write data; and what a sequence of
  data statements inside a transaction does to the client (the committed tables stay,
  the transaction stays open, no game id is lost, and the log grows by statements that all
  succeeded unless the sequence failed).\<close>

definition issued :: "Client \<Rightarrow> Client \<Rightarrow> (Statement \<times> bool) list" where
  "issued c c' = drop (length (queryLog c)) (queryLog c')"

definition gameIds :: "Client \<Rightarrow> string set" where
  "gameIds c = set (map game_id (gamesTable (current c)))"

definition txnStep :: "bool \<Rightarrow> Client \<Rightarrow> Client \<Rightarrow> bool" where
  "txnStep failed c c' =
     (committed c' = committed c \<and> pending c' \<noteq> None \<and> gameIds c \<subseteq> gameIds c' \<and>
      (\<exists>new. queryLog c' = queryLog c @ new \<and> (failed \<or> list_all snd new)))"

definition gamesOf :: "RoundsParams \<Rightarrow> GameData list" where
  "gamesOf roundsParams =
     concat (map (\<lambda>g. concat (map games (suppliedFor roundsParams g))) (map fst roundsParams))"

definition roundKeys :: "Tables \<Rightarrow> (string \<times> int) list" where
  "roundKeys t = map (\<lambda>r. (grade_id r, sequence_no r)) (rounds t)"

definition dataStatement :: "Statement \<Rightarrow> bool" where
  "dataStatement stmt = (stmt \<noteq> BEGIN \<and> stmt \<noteq> COMMIT \<and> stmt \<noteq> ROLLBACK)"

text \<open>The last statement the client was sent is a \<open>ROLLBACK\<close> that succeeded; and no
  statement sent from now on fails for reasons of its own.\<close>

definition rolledBack :: "Client \<Rightarrow> bool" where
  "rolledBack c = (queryLog c \<noteq> [] \<and> last (queryLog c) = (ROLLBACK, True))"

definition noFaultsFrom :: "Database \<Rightarrow> Client \<Rightarrow> bool" where
  "noFaultsFrom db c = (\<forall>n \<ge> length (queryLog c). \<not> failsAt db n)"

text \<open>Sample data for the persist service: an upload of two grades with three games, the
  attributes computed for it, a client on a database that holds the two grades, and two
  versions of the same round.\<close>

definition sampleGame :: "string \<Rightarrow> GameData" where
  "sampleGame gid = \<lparr>gameId = gid, homeTeamID = ''t1'', awayTeamID = ''t2'',
     gameDate = ''2025-03-15'', provisionalDates = None\<rparr>"

definition sampleRoundsParams :: RoundsParams where
  "sampleRoundsParams =
     [(''g1'', [\<lparr>roundInfo = \<lparr>sequenceNo = 1, provisionalDate = ''2025-03-15''\<rparr>,
                games = [sampleGame ''game1'']\<rparr>]),
      (''g2'', [\<lparr>roundInfo = \<lparr>sequenceNo = 1, provisionalDate = ''2025-03-16''\<rparr>,
                games = [sampleGame ''game2'', sampleGame ''game3'']\<rparr>])]"

definition sampleAttributes :: "string \<rightharpoonup> GradeAttributes" where
  "sampleAttributes =
     [''g1'' \<mapsto> \<lparr>attrNoOfRounds = 1, startDate = Some ''2025-03-15''\<rparr>,
      ''g2'' \<mapsto> \<lparr>attrNoOfRounds = 1, startDate = Some ''2025-03-16''\<rparr>]"

definition sampleTables :: Tables where
  "sampleTables =
     \<lparr>rounds = [], gamesTable = [],
      gradesTable = [\<lparr>grade_row_id = ''g1'', no_of_rounds = None, start_date = None\<rparr>,
                     \<lparr>grade_row_id = ''g2'', no_of_rounds = None, start_date = None\<rparr>]\<rparr>"

definition sampleClient :: Client where
  "sampleClient = \<lparr>committed = sampleTables, pending = None, nextRoundId = 1, queryLog = []\<rparr>"

definition sampleDatabase :: "(nat \<Rightarrow> bool) \<Rightarrow> bool \<Rightarrow> Database" where
  "sampleDatabase faults keyed = \<lparr>failsAt = faults, gameIdUnique = keyed\<rparr>"

definition firstRound :: RoundParam where
  "firstRound = \<lparr>roundInfo = \<lparr>sequenceNo = 1, provisionalDate = ''2025-03-15''\<rparr>, games = []\<rparr>"

definition laterRound :: RoundParam where
  "laterRound = \<lparr>roundInfo = \<lparr>sequenceNo = 1, provisionalDate = ''2025-03-22''\<rparr>, games = []\<rparr>"

text \<open>The outcome of \<open>handle\<close> for a rejected upload: the messages, no fixture, no events,
  and no effect (neither the copy nor \<open>persist\<close> is called).\<close>

definition rejected :: "string list \<Rightarrow> (string + HandleResult) \<times> Effect list" where
  "rejected es = (Inr \<lparr>result = \<lparr>errors = Some es, fixture = None\<rparr>, events = []\<rparr>, [])"

section \<open>Properties of the row validator\<close>

lemma sample_lookup [simp]:
  "find (\<lambda>g. code g = gradeCode sampleRow) (grades (sampleContext b)) = Some sampleGrade"
  by (simp add: sampleRow_def sampleContext_def sampleGrade_def)

lemma sample_dateBefore [simp]: "dateBefore sampleDateParse (date sampleRow) sampleToday"
  by (simp add: dateBefore_def sampleDateParse_def sampleRow_def sampleToday_def parseDate_def
      elementText_def)

lemma sample_hasExistingFixtures [simp]:
  "hasExistingFixtures (sampleContext b) (gradeId sampleGrade) = b"
  by (simp add: hasExistingFixtures_def sampleContext_def sampleGrade_def)

lemma isPastDateError_simps:
  "isPastDateError (pastDateError r g)"
  "\<not> isPastDateError (homeTeamError r g)"
  "\<not> isPastDateError (awayTeamError r g)"
  "\<not> isPastDateError (roundBoundError r g)"
  by (simp_all add: isPastDateError_def pastDateError_def homeTeamError_def awayTeamError_def
      roundBoundError_def businessError_def)

text \<open>
  C1, as the code has it. For a row dated before the clock reading whose grade is found in
  the context: when the context does not record existing fixtures under the grade's id,
  row validation produces the past-date violation, a BUSINESS_RULE error; when it does
  record them, row validation produces no past-date violation.
\<close>

theorem past_date_rule:
  assumes "find (\<lambda>g. code g = gradeCode r) (grades ctx) = Some g"
    and "dateBefore dp (date r) today"
  shows "(\<not> hasExistingFixtures ctx (gradeId g) \<longrightarrow>
            pastDateError r g \<in> set (validateFixtureRow dp today r ctx) \<and>
            type (pastDateError r g) = BUSINESS_RULE) \<and>
         (hasExistingFixtures ctx (gradeId g) \<longrightarrow>
            filter isPastDateError (validateFixtureRow dp today r ctx) = [])"
  using assms
  by (simp add: validateFixtureRow_def Let_def isPastDateError_simps pastDateError_def
      businessError_def)

theorem past_date_rule_witness:
  "pastDateError sampleRow sampleGrade \<in>
     set (validateFixtureRow sampleDateParse sampleToday sampleRow (sampleContext False)) \<and>
   filter isPastDateError
     (validateFixtureRow sampleDateParse sampleToday sampleRow (sampleContext True)) = []"
proof -
  have absent: "\<not> hasExistingFixtures (sampleContext False) (gradeId sampleGrade)"
    and present: "hasExistingFixtures (sampleContext True) (gradeId sampleGrade)"
    by simp_all
  from past_date_rule [OF sample_lookup sample_dateBefore, of False] absent
    past_date_rule [OF sample_lookup sample_dateBefore, of True] present
  show ?thesis by blast
qed

text \<open>
  C1 as the specification states it fails: the row of a grade without existing fixtures
  gets a past-date violation, the same row of a grade with existing fixtures gets none.
\<close>

theorem past_date_exemption_counterexample:
  "dateBefore sampleDateParse (date sampleRow) sampleToday \<and>
   validateFixtureRow sampleDateParse sampleToday sampleRow (sampleContext False) =
     [pastDateError sampleRow sampleGrade] \<and>
   validateFixtureRow sampleDateParse sampleToday sampleRow (sampleContext True) = []"
  by (simp add: validateFixtureRow_def sampleRow_def sampleContext_def sampleGrade_def
      sampleDateParse_def sampleToday_def dateBefore_def parseDate_def elementText_def
      hasExistingFixtures_def)

text \<open>
  C8. For a row whose grade code resolves to no grade of the context, row validation returns
  exactly one violation, the BUSINESS_RULE error that the grade does not exist, and
  nothing else: no team, round-bound or past-date check contributes.
\<close>

theorem missing_grade_short_circuits:
  "find (\<lambda>g. code g = gradeCode r) (grades ctx) = None \<Longrightarrow>
   validateFixtureRow dp today r ctx = [gradeMissingError r] \<and>
   type (gradeMissingError r) = BUSINESS_RULE \<and>
   message (gradeMissingError r) =
     ''Grade '' @ quoted (gradeCode r) @ '' does not exist in this season''"
  by (simp add: validateFixtureRow_def gradeMissingError_def businessError_def)

theorem missing_grade_short_circuits_witness:
  "validateFixtureRow sampleDateParse sampleToday otherRow
     (sampleContext False \<lparr>grades := []\<rparr>) = [gradeMissingError otherRow]"
proof -
  have "find (\<lambda>g. code g = gradeCode otherRow) (grades (sampleContext False \<lparr>grades := []\<rparr>)) = None"
    by simp
  from missing_grade_short_circuits [OF this] show ?thesis by blast
qed

section \<open>Properties of file format validation\<close>

text \<open>
  C10. The row with home team \<open>Lions\<close> and away team \<open>Lions\<close> followed by a space passes
  file format validation without a self-play violation, whenever the platform parses its
  date, and is accepted with the same trimmed name for both teams: the check compares the
  untrimmed cells.
\<close>

theorem selfplay_check_compares_untrimmed:
  "dp ''03/15/2024'' \<noteq> None \<Longrightarrow>
   cellHomeTeam lionsRow \<noteq> cellAwayTeam lionsRow \<and>
   (\<exists>accepted. parseAndValidateFile dp (Some [lionsRow]) = ([accepted], []) \<and>
      homeTeam accepted = ''Lions'' \<and> awayTeam accepted = ''Lions'')"
  by (simp add: parseAndValidateFile_def rowFormatErrors_def blank_def trim_def isWhiteSpace_def
      isValidDate_def dateRegex_def isDigit_def parseDate_def elementText_def toFixtureRow_def
      lionsRow_def)

theorem selfplay_check_compares_untrimmed_witness:
  "\<exists>accepted. parseAndValidateFile sampleDateParse (Some [lionsRow]) = ([accepted], []) \<and>
      homeTeam accepted = awayTeam accepted"
proof -
  have "sampleDateParse ''03/15/2024'' \<noteq> None" by (simp add: sampleDateParse_def)
  from selfplay_check_compares_untrimmed [of sampleDateParse, OF this] show ?thesis by metis
qed

section \<open>Properties of cross-row validation\<close>

text \<open>The loop keeps, after the rows \<open>p\<close>, the signatures of \<open>p\<close> and the tracker of \<open>p\<close>;
  so its result is the violations of each row against the rows before it.\<close>

lemma trackerGet_trackerOf: "trackerGet (trackerOf p) k = roundsSeen p k"
  by (auto simp: trackerGet_def trackerOf_def roundsSeen_def)

lemma roundsSeen_snoc:
  "roundsSeen (p @ [r]) k = (if homeKey r = k \<or> awayKey r = k then insert (round' r) (roundsSeen p k) else roundsSeen p k)"
  by (auto simp: roundsSeen_def)

lemma roundsSeen_unseen:
  "k \<notin> homeKey ` set p \<Longrightarrow> k \<notin> awayKey ` set p \<Longrightarrow> roundsSeen p k = {}"
  by (auto simp: roundsSeen_def)

lemma trackerGet_ensure: "trackerGet (trackerEnsure t k) k' = trackerGet t k'"
  by (simp add: trackerGet_def trackerEnsure_def)

lemma tracker_step:
  "trackerAdd (trackerAdd (trackerEnsure (trackerEnsure (trackerOf p) (homeKey r)) (awayKey r))
      (homeKey r) (round' r)) (awayKey r) (round' r) = trackerOf (p @ [r])"
proof (rule ext)
  fix k
  show "trackerAdd (trackerAdd (trackerEnsure (trackerEnsure (trackerOf p) (homeKey r)) (awayKey r))
      (homeKey r) (round' r)) (awayKey r) (round' r) k = trackerOf (p @ [r]) k"
    by (auto simp: trackerAdd_def trackerGet_ensure trackerGet_trackerOf roundsSeen_snoc
        trackerOf_def trackerEnsure_def trackerGet_def roundsSeen_unseen)
qed

lemma crossRowStep_inv:
  "crossRowStep r (errs, set (map gameSignature p), trackerOf p) =
     (errs @ rowErrors p r, set (map gameSignature (p @ [r])), trackerOf (p @ [r]))"
  by (simp add: crossRowStep_def Let_def rowErrors_def trackerGet_ensure trackerGet_trackerOf tracker_step)

lemma fold_crossRowStep:
  "fold crossRowStep rows (errs, set (map gameSignature p), trackerOf p) =
     (errs @ errorsAfter p rows, set (map gameSignature (p @ rows)), trackerOf (p @ rows))"
proof (induction rows arbitrary: errs p)
  case Nil
  then show ?case by simp
next
  case (Cons r rows)
  have "fold crossRowStep (r # rows) (errs, set (map gameSignature p), trackerOf p)
      = fold crossRowStep rows (errs @ rowErrors p r, set (map gameSignature (p @ [r])), trackerOf (p @ [r]))"
    by (simp only: fold_simps crossRowStep_inv)
  also have "\<dots> = ((errs @ rowErrors p r) @ errorsAfter (p @ [r]) rows,
       set (map gameSignature ((p @ [r]) @ rows)), trackerOf ((p @ [r]) @ rows))"
    by (rule Cons.IH)
  finally show ?case by simp
qed

lemma validateCrossRowRules_errorsAfter: "validateCrossRowRules rows = errorsAfter [] rows"
proof -
  have "trackerOf [] = Map.empty" by (rule ext) (simp add: trackerOf_def)
  then have "fold crossRowStep rows ([], {}, Map.empty) =
     ([] @ errorsAfter [] rows, set (map gameSignature ([] @ rows)), trackerOf ([] @ rows))"
    using fold_crossRowStep[of rows "[]" "[]"] by simp
  then show ?thesis by (simp add: validateCrossRowRules_def)
qed








section \<open>Properties of the validation stages\<close>

text \<open>The validation loop never throws: it returns the format violations of every row,
  and accepts exactly the rows without one.\<close>

lemma rowFormatErrors_row: "e \<in> set (rowFormatErrors dp n r) \<Longrightarrow> row e = Some n"
  by (auto simp: rowFormatErrors_def formatError_def split: if_splits)

lemma rowFormatErrors_Nil_cells:
  assumes "rowFormatErrors dp n r = []"
  shows "\<exists>fr. toFixtureRow r = Some fr"
proof -
  from assms have "\<not> blank (cellGradeCode r)" "\<not> blank (cellHomeTeam r)" "\<not> blank (cellAwayTeam r)"
    "isValidDate dp (cellDate r)" "cellRound r \<noteq> None"
    by (auto simp: rowFormatErrors_def split: if_splits option.splits)
  then show ?thesis
    by (auto simp: toFixtureRow_def blank_def isValidDate_def split: option.splits)
qed

lemma filter_own_row:
  assumes "\<forall>e \<in> set errs. \<forall>m. row e = Some m \<longrightarrow> m < n"
  shows "filter (\<lambda>e. row e = Some n) (errs @ rowFormatErrors dp n r) = rowFormatErrors dp n r"
proof -
  have "filter (\<lambda>e. row e = Some n) errs = []" using assms by (auto simp: filter_empty_conv)
  moreover have "filter (\<lambda>e. row e = Some n) (rowFormatErrors dp n r) = rowFormatErrors dp n r"
    by (simp add: rowFormatErrors_row)
  ultimately show ?thesis by simp
qed

lemma validationLoop_reject:
  assumes "\<forall>e \<in> set errs. \<forall>m. row e = Some m \<longrightarrow> m < index + 2"
    and "rowFormatErrors dp (index + 2) r \<noteq> []"
  shows "validationLoop dp index (r # rs) (acc, errs) =
     validationLoop dp (Suc index) rs (acc, errs @ rowFormatErrors dp (index + 2) r)"
  using filter_own_row [OF assms(1), of dp r] assms(2)
  by (simp add: Let_def del: filter_append)

lemma validationLoop_accept:
  assumes "\<forall>e \<in> set errs. \<forall>m. row e = Some m \<longrightarrow> m < index + 2"
    and "rowFormatErrors dp (index + 2) r = []" and "toFixtureRow r = Some fr"
  shows "validationLoop dp index (r # rs) (acc, errs) =
     validationLoop dp (Suc index) rs (acc @ [fr], errs)"
  using filter_own_row [OF assms(1), of dp r] assms(2,3)
  by (simp add: Let_def del: filter_append)

lemma validationLoop_returns:
  assumes "\<forall>e \<in> set errs. \<forall>m. row e = Some m \<longrightarrow> m < index + 2"
  shows "validationLoop dp index rs (acc, errs) =
     Some (acc @ acceptedRowsFrom dp index rs, errs @ formatViolationsFrom dp index rs)"
  using assms
proof (induction rs arbitrary: index acc errs)
  case Nil
  then show ?case by (simp add: acceptedRowsFrom_def formatViolationsFrom_def List.map_filter_simps)
next
  case (Cons r rs)
  let ?own = "rowFormatErrors dp (index + 2) r"
  show ?case
  proof (cases "?own = []")
    case True
    then obtain fr where fr: "toFixtureRow r = Some fr"
      using rowFormatErrors_Nil_cells by blast
    have "\<forall>e \<in> set errs. \<forall>m. row e = Some m \<longrightarrow> m < Suc index + 2"
      using Cons.prems by auto
    from Cons.IH [OF this, of "acc @ [fr]"] True fr
    show ?thesis
      unfolding validationLoop_accept [OF Cons.prems True fr]
      by (simp add: acceptedRowsFrom_def formatViolationsFrom_def List.map_filter_simps)
  next
    case False
    have "\<forall>e \<in> set (errs @ ?own). \<forall>m. row e = Some m \<longrightarrow> m < Suc index + 2"
      using Cons.prems by (auto dest: rowFormatErrors_row)
    from Cons.IH [OF this, of acc] False
    show ?thesis
      unfolding validationLoop_reject [OF Cons.prems False]
      by (simp add: acceptedRowsFrom_def formatViolationsFrom_def List.map_filter_simps)
  qed
qed

lemma parseAndValidateFile_rows:
  "parseAndValidateFile dp (Some rs) = (acceptedRowsFrom dp 0 rs, formatViolationsFrom dp 0 rs)"
  using validationLoop_returns [of "[]" 0 dp rs "[]"]
  by (simp add: parseAndValidateFile_def)


lemma sample_parse_mixed:
  "parseAndValidateFile sampleDateParse (Some [tigersRow\<lparr>cellGradeCode := Some '' ''\<rparr>, tigersRow]) =
     ([acceptedTigersRow], [formatError 2 ''Grade Code is required'' (Some ''Grade Code'')])"
  by (simp add: parseAndValidateFile_def rowFormatErrors_def blank_def trim_def isWhiteSpace_def
      isValidDate_def dateRegex_def isDigit_def parseDate_def elementText_def toFixtureRow_def
      tigersRow_def acceptedTigersRow_def sampleDateParse_def formatError_def numeral_2_eq_2)

lemma sample_parse_clean:
  "parseAndValidateFile sampleDateParse (Some [tigersRow]) = ([acceptedTigersRow], [])"
  by (simp add: parseAndValidateFile_def rowFormatErrors_def blank_def trim_def isWhiteSpace_def
      isValidDate_def dateRegex_def isDigit_def parseDate_def elementText_def toFixtureRow_def
      tigersRow_def acceptedTigersRow_def sampleDateParse_def formatError_def)

lemma sample_business_emptySeason:
  "validateBusinessRules sampleDateParse (\<lambda>i. t) emptySeason [acceptedTigersRow] ''s1'' =
     Some [gradeMissingError acceptedTigersRow]"
  by (simp add: validateBusinessRules_def loadValidationContext_def emptySeason_def hasFixtures_def
      validateRows_def validateFixtureRow_def validateCrossRowRules_def crossRowStep_def
      trackerEnsure_def trackerGet_def trackerAdd_def Let_def)

lemma sample_union_mixed:
  "unionOfViolations
     (sampleService emptySeason [tigersRow\<lparr>cellGradeCode := Some '' ''\<rparr>, tigersRow] sampleToday)
     sampleCommand =
     Some [formatError 2 ''Grade Code is required'' (Some ''Grade Code''),
           gradeMissingError acceptedTigersRow]"
  using sample_business_emptySeason [of sampleToday]
  by (simp add: unionOfViolations_def sampleService_def sampleCommand_def
      sample_parse_mixed validateBusinessRules_def split: option.splits)

lemma sample_union_clean:
  "unionOfViolations (sampleService sampleSeason [tigersRow] 1579046400000) sampleCommand = Some []"
  by (simp add: unionOfViolations_def sampleService_def sampleCommand_def sample_parse_clean
      loadValidationContext_def sampleSeason_def hasFixtures_def sampleContext_def sampleGrade_def
      validateRows_def validateFixtureRow_def acceptedTigersRow_def dateBefore_def parseDate_def
      elementText_def sampleDateParse_def
      validateCrossRowRules_errorsAfter rowErrors_def roundsSeen_def)






section \<open>Properties of the upload handler\<close>

lemma handle_rejects:
  assumes "validationErrors (validateS3File (validationService h) command) = Some es" and "es \<noteq> []"
  shows "handle h command = rejected es"
  using assms by (simp add: handle_def Let_def rejected_def)

lemma handle_passes:
  assumes "validationErrors (validateS3File (validationService h) command) = None"
    and "handle h command = (Inr r, eff)"
  shows "errors (result r) = None"
  using assms
  by (auto simp: handle_def Let_def split: if_splits option.splits prod.splits)

lemma validateS3File_stages:
  assumes "getObject svc ''upload-bucket'' (objectKey command) = Some buf"
    and "parseAndValidateFile (dateParse svc) (simulateExcelParsing svc buf) = (fixtureRows, formatErrors)"
  shows "validationErrors (validateS3File svc command) =
     (if formatErrors \<noteq> [] then Some (map message formatErrors)
      else (case loadValidationContext (repositories svc) (commandSeasonID command) fixtureRows of
              None \<Rightarrow> Some [''Failed to access or process uploaded file'']
            | Some ctx \<Rightarrow>
                (let vs = validateRows (dateParse svc) (clock svc) fixtureRows ctx @
                          validateCrossRowRules fixtureRows
                 in if vs = [] then None else Some (map message vs))))"
  using assms
  by (simp add: validateS3File_def validateBusinessRules_def accessFailed_def Let_def
      split: option.splits)

lemma handle_unreadable:
  assumes "getObject (validationService h) ''upload-bucket'' (objectKey command) = None"
  shows "handle h command = rejected [''Failed to access or process uploaded file'']"
proof -
  from assms have "validationErrors (validateS3File (validationService h) command) =
      Some [''Failed to access or process uploaded file'']"
    by (simp add: validateS3File_def accessFailed_def)
  from handle_rejects [OF this] show ?thesis by simp
qed

lemma handle_stages:
  assumes "getObject (validationService h) ''upload-bucket'' (objectKey command) = Some buf"
    and "parseAndValidateFile (dateParse (validationService h))
           (simulateExcelParsing (validationService h) buf) = (fixtureRows, formatErrors)"
  shows "(\<forall>rs. simulateExcelParsing (validationService h) buf = Some rs \<longrightarrow>
            formatErrors = formatViolationsFrom (dateParse (validationService h)) 0 rs \<and>
            fixtureRows = acceptedRowsFrom (dateParse (validationService h)) 0 rs) \<and>
         (formatErrors \<noteq> [] \<longrightarrow> handle h command = rejected (map message formatErrors)) \<and>
         (formatErrors = [] \<longrightarrow>
            (loadValidationContext (repositories (validationService h)) (commandSeasonID command)
               fixtureRows = None \<longrightarrow>
             handle h command = rejected [''Failed to access or process uploaded file'']) \<and>
            (\<forall>ctx. loadValidationContext (repositories (validationService h))
                     (commandSeasonID command) fixtureRows = Some ctx \<longrightarrow>
               (let vs = validateRows (dateParse (validationService h)) (clock (validationService h))
                           fixtureRows ctx @ validateCrossRowRules fixtureRows
                in (vs \<noteq> [] \<longrightarrow> handle h command = rejected (map message vs)) \<and>
                   (vs = [] \<longrightarrow>
                      validationErrors (validateS3File (validationService h) command) = None \<and>
                      (\<forall>r eff. handle h command = (Inr r, eff) \<longrightarrow> errors (result r) = None)))))"
proof (intro conjI allI impI)
  fix rs assume "simulateExcelParsing (validationService h) buf = Some rs"
  with assms(2) show "formatErrors = formatViolationsFrom (dateParse (validationService h)) 0 rs"
    and "fixtureRows = acceptedRowsFrom (dateParse (validationService h)) 0 rs"
    by (simp_all add: parseAndValidateFile_rows)
next
  assume "formatErrors \<noteq> []"
  with validateS3File_stages [OF assms]
  have "validationErrors (validateS3File (validationService h) command) =
      Some (map message formatErrors)" by simp
  from handle_rejects [OF this] \<open>formatErrors \<noteq> []\<close>
  show "handle h command = rejected (map message formatErrors)" by simp
next
  assume "formatErrors = []"
    and "loadValidationContext (repositories (validationService h)) (commandSeasonID command)
           fixtureRows = None"
  with validateS3File_stages [OF assms]
  have "validationErrors (validateS3File (validationService h) command) =
      Some [''Failed to access or process uploaded file'']" by simp
  from handle_rejects [OF this]
  show "handle h command = rejected [''Failed to access or process uploaded file'']" by simp
next
  fix ctx
  assume none: "formatErrors = []"
    and ctx: "loadValidationContext (repositories (validationService h)) (commandSeasonID command)
           fixtureRows = Some ctx"
  let ?vs = "validateRows (dateParse (validationService h)) (clock (validationService h))
               fixtureRows ctx @ validateCrossRowRules fixtureRows"
  from validateS3File_stages [OF assms] none ctx
  have v: "validationErrors (validateS3File (validationService h) command) =
      (if ?vs = [] then None else Some (map message ?vs))"
    by (simp add: Let_def)
  have "(?vs \<noteq> [] \<longrightarrow> handle h command = rejected (map message ?vs)) \<and>
        (?vs = [] \<longrightarrow>
           validationErrors (validateS3File (validationService h) command) = None \<and>
           (\<forall>r eff. handle h command = (Inr r, eff) \<longrightarrow> errors (result r) = None))"
  proof (cases "?vs = []")
    case True
    with v have n: "validationErrors (validateS3File (validationService h) command) = None"
      by (simp only: if_True simp_thms)
    with True handle_passes [OF n] show ?thesis by blast
  next
    case False
    with v have some: "validationErrors (validateS3File (validationService h) command) =
        Some (map message ?vs)" by (simp only: if_False simp_thms)
    from False have "map message ?vs \<noteq> []" by simp
    from handle_rejects [OF some this] False show ?thesis by blast
  qed
  then show "let vs = ?vs
      in (vs \<noteq> [] \<longrightarrow> handle h command = rejected (map message vs)) \<and>
         (vs = [] \<longrightarrow>
            validationErrors (validateS3File (validationService h) command) = None \<and>
            (\<forall>r eff. handle h command = (Inr r, eff) \<longrightarrow> errors (result r) = None))"
    by (simp only: Let_def)
qed

text \<open>
  C3, as the code has it. An upload that cannot be read is rejected with the one message
  that the file could not be processed. For an upload that can be read, with the rows and
  the file format violations that file format validation gives for it (for decoded rows:
  the violations of every row, and the rows without one):
  \<^item> when there are file format violations, the handler returns exactly their messages;
  \<^item> when there are none and the context loads, and the business rule violations of all
    rows followed by the cross-row violations are not empty, the handler returns exactly
    the messages of these;
  \<^item> when there are none and the context cannot be loaded, the handler returns the one
    message that the file could not be processed.

  In each of these cases the whole upload is rejected: no fixture, no events, and neither
  the copy nor \<open>persist\<close> is called. When no stage finds a violation, validation returns no
  messages and a result of the handler carries no errors.
\<close>

theorem violations_reject_upload:
  "(getObject (validationService h) ''upload-bucket'' (objectKey command) = None \<longrightarrow>
      handle h command = rejected [''Failed to access or process uploaded file'']) \<and>
   (\<forall>buf fixtureRows formatErrors.
      getObject (validationService h) ''upload-bucket'' (objectKey command) = Some buf \<longrightarrow>
      parseAndValidateFile (dateParse (validationService h))
        (simulateExcelParsing (validationService h) buf) = (fixtureRows, formatErrors) \<longrightarrow>
      (\<forall>rs. simulateExcelParsing (validationService h) buf = Some rs \<longrightarrow>
         formatErrors = formatViolationsFrom (dateParse (validationService h)) 0 rs \<and>
         fixtureRows = acceptedRowsFrom (dateParse (validationService h)) 0 rs) \<and>
      (formatErrors \<noteq> [] \<longrightarrow> handle h command = rejected (map message formatErrors)) \<and>
      (formatErrors = [] \<longrightarrow>
         (loadValidationContext (repositories (validationService h)) (commandSeasonID command)
            fixtureRows = None \<longrightarrow>
          handle h command = rejected [''Failed to access or process uploaded file'']) \<and>
         (\<forall>ctx. loadValidationContext (repositories (validationService h))
                  (commandSeasonID command) fixtureRows = Some ctx \<longrightarrow>
            (let vs = validateRows (dateParse (validationService h)) (clock (validationService h))
                        fixtureRows ctx @ validateCrossRowRules fixtureRows
             in (vs \<noteq> [] \<longrightarrow> handle h command = rejected (map message vs)) \<and>
                (vs = [] \<longrightarrow>
                   validationErrors (validateS3File (validationService h) command) = None \<and>
                   (\<forall>r eff. handle h command = (Inr r, eff) \<longrightarrow> errors (result r) = None))))))"
  using handle_unreadable [of h command] handle_stages [of h command] by blast

lemma sample_service_simps [simp]:
  "validationService (sampleHandler svc) = svc"
  "getObject (sampleService repos rs today) bucket key = Some ''excel-file-content''"
  "simulateExcelParsing (sampleService repos rs today) buf = Some rs"
  "dateParse (sampleService repos rs today) = sampleDateParse"
  "clock (sampleService repos rs today) = (\<lambda>i. today)"
  "repositories (sampleService repos rs today) = repos"
  by (simp_all add: sampleHandler_def sampleService_def)

lemma sample_context_emptySeason:
  "loadValidationContext emptySeason (commandSeasonID sampleCommand) rows =
     Some \<lparr>seasonID = ''s1'', grades = [], teams = [], existingFixtures = Map.empty\<rparr>"
  by (simp add: loadValidationContext_def emptySeason_def hasFixtures_def sampleCommand_def)

lemma sample_context_sampleSeason:
  "loadValidationContext sampleSeason (commandSeasonID sampleCommand) [acceptedTigersRow] =
     Some \<lparr>seasonID = ''s1'', grades = [sampleGrade], teams = teams (sampleContext False),
           existingFixtures = [''A1'' \<mapsto> False]\<rparr>"
  by (simp add: loadValidationContext_def sampleSeason_def hasFixtures_def sampleCommand_def
      acceptedTigersRow_def)

lemma sample_violations_emptySeason:
  "validateRows sampleDateParse (\<lambda>i. t) [acceptedTigersRow]
     \<lparr>seasonID = ''s1'', grades = [], teams = [], existingFixtures = Map.empty\<rparr> =
   [gradeMissingError acceptedTigersRow]"
  "validateCrossRowRules [acceptedTigersRow] = []"
  by (simp_all add: validateRows_def validateFixtureRow_def validateCrossRowRules_errorsAfter
      rowErrors_def roundsSeen_def)

lemma sample_violations_sampleSeason:
  "validateRows sampleDateParse (\<lambda>i. 1579046400000) [acceptedTigersRow]
     \<lparr>seasonID = ''s1'', grades = [sampleGrade], teams = teams (sampleContext False),
      existingFixtures = [''A1'' \<mapsto> False]\<rparr> = []"
  by (simp add: validateRows_def validateFixtureRow_def validateCrossRowRules_errorsAfter
      rowErrors_def roundsSeen_def sampleContext_def sampleGrade_def acceptedTigersRow_def
      dateBefore_def parseDate_def elementText_def sampleDateParse_def)

theorem violations_reject_upload_witness:
  "handle (sampleHandler (sampleService emptySeason
       [tigersRow\<lparr>cellGradeCode := Some '' ''\<rparr>, tigersRow] sampleToday)) sampleCommand =
     rejected [message (formatError 2 ''Grade Code is required'' (Some ''Grade Code''))] \<and>
   handle (sampleHandler (sampleService emptySeason [tigersRow] sampleToday)) sampleCommand =
     rejected [message (gradeMissingError acceptedTigersRow)] \<and>
   validationErrors (validateS3File (sampleService sampleSeason [tigersRow] 1579046400000)
     sampleCommand) = None"
proof -
  let ?mixedRows = "[tigersRow\<lparr>cellGradeCode := Some '' ''\<rparr>, tigersRow]"
  let ?mixed = "sampleHandler (sampleService emptySeason ?mixedRows sampleToday)"
  let ?unknown = "sampleHandler (sampleService emptySeason [tigersRow] sampleToday)"
  let ?clean = "sampleHandler (sampleService sampleSeason [tigersRow] 1579046400000)"
  have om: "getObject (validationService ?mixed) ''upload-bucket'' (objectKey sampleCommand) =
      Some ''excel-file-content''"
    and ou: "getObject (validationService ?unknown) ''upload-bucket'' (objectKey sampleCommand) =
      Some ''excel-file-content''"
    and oc: "getObject (validationService ?clean) ''upload-bucket'' (objectKey sampleCommand) =
      Some ''excel-file-content''"
    by simp_all
  have pm: "parseAndValidateFile (dateParse (validationService ?mixed))
        (simulateExcelParsing (validationService ?mixed) ''excel-file-content'') =
      ([acceptedTigersRow], [formatError 2 ''Grade Code is required'' (Some ''Grade Code'')])"
    and pu: "parseAndValidateFile (dateParse (validationService ?unknown))
        (simulateExcelParsing (validationService ?unknown) ''excel-file-content'') =
      ([acceptedTigersRow], [])"
    and pc: "parseAndValidateFile (dateParse (validationService ?clean))
        (simulateExcelParsing (validationService ?clean) ''excel-file-content'') =
      ([acceptedTigersRow], [])"
    by (simp_all add: sample_parse_mixed sample_parse_clean)
  from violations_reject_upload [of ?mixed sampleCommand, THEN conjunct2, rule_format, OF om pm]
  have one: "handle ?mixed sampleCommand =
      rejected [message (formatError 2 ''Grade Code is required'' (Some ''Grade Code''))]"
    by simp
  from violations_reject_upload [of ?unknown sampleCommand, THEN conjunct2, rule_format, OF ou pu] sample_context_emptySeason [of "[acceptedTigersRow]"]
    sample_violations_emptySeason(1) [of sampleToday] sample_violations_emptySeason(2)
  have two: "handle ?unknown sampleCommand = rejected [message (gradeMissingError acceptedTigersRow)]"
    by (simp add: Let_def)
  from violations_reject_upload [of ?clean sampleCommand, THEN conjunct2, rule_format, OF oc pc] sample_context_sampleSeason sample_violations_sampleSeason
    sample_violations_emptySeason(2)
  have three: "validationErrors (validateS3File (validationService ?clean) sampleCommand) = None"
    by (simp add: Let_def)
  from one two three show ?thesis by simp
qed

text \<open>
  C3 as the specification states it fails: for the upload with a row without grade code and
  a well-formed row of an unknown grade, the violations are the file format violation and
  the business rule violation, and the handler returns the message of the first alone.
\<close>

theorem handler_full_list_counterexample:
  "unionOfViolations
     (sampleService emptySeason [tigersRow\<lparr>cellGradeCode := Some '' ''\<rparr>, tigersRow] sampleToday)
     sampleCommand =
     Some [formatError 2 ''Grade Code is required'' (Some ''Grade Code''),
           gradeMissingError acceptedTigersRow] \<and>
   handle (sampleHandler (sampleService emptySeason
       [tigersRow\<lparr>cellGradeCode := Some '' ''\<rparr>, tigersRow] sampleToday)) sampleCommand =
     (Inr \<lparr>result = \<lparr>errors = Some [''Row 2: Grade Code is required''], fixture = None\<rparr>,
           events = []\<rparr>, []) \<and>
   message (gradeMissingError acceptedTigersRow) \<noteq> ''Row 2: Grade Code is required''"
  using sample_union_mixed
  by (simp add: handle_def validateS3File_def sample_parse_mixed Let_def formatError_def
      rowMessage_def showNat.simps digitChar_def gradeMissingError_def businessError_def)

section \<open>Properties of the grade attributes\<close>

lemma fold_update:
  "fold (\<lambda>g acc. acc(g \<mapsto> f g)) ks m = (\<lambda>k. if k \<in> set ks then Some (f k) else m k)"
  by (induction ks arbitrary: m) (auto simp: fun_eq_iff)

lemma calculateGradeAttributes_at:
  "calculateGradeAttributes allRoundsByGrade roundsParams g =
     (if g \<in> set (map fst roundsParams)
      then Some \<lparr>attrNoOfRounds = length (existingFor allRoundsByGrade g) + length (suppliedFor roundsParams g),
                 startDate = firstDate (existingFor allRoundsByGrade g) (suppliedFor roundsParams g)\<rparr>
      else None)"
  unfolding calculateGradeAttributes_def Let_def existingFor_def [symmetric]
  by (simp add: fold_update)

text \<open>
  C9, as the code has it. For every grade of the upload the attributes are computed; the
  round count is the number of persisted rounds plus the number of supplied rounds; the
  start date is the date of the first persisted round when there is one and its date is
  not empty, and the date of the first supplied round (none without a supplied round)
  otherwise.
\<close>

theorem grade_attributes:
  assumes "g \<in> set (map fst roundsParams)"
  shows "\<exists>a. calculateGradeAttributes allRoundsByGrade roundsParams g = Some a \<and>
     attrNoOfRounds a = length (existingFor allRoundsByGrade g) + length (suppliedFor roundsParams g) \<and>
     (case existingFor allRoundsByGrade g of
        [] \<Rightarrow> startDate a = firstSuppliedDate (suppliedFor roundsParams g)
      | r # _ \<Rightarrow>
          (roundProvisionalDate r \<noteq> [] \<longrightarrow> startDate a = Some (roundProvisionalDate r)) \<and>
          (roundProvisionalDate r = [] \<longrightarrow> startDate a = firstSuppliedDate (suppliedFor roundsParams g)))"
  using assms
  by (simp add: calculateGradeAttributes_at firstDate_def firstSuppliedDate_def split: list.split)

theorem grade_attributes_witness:
  "\<exists>a. calculateGradeAttributes [''g1'' \<mapsto> [datedRound]] [(''g1'', [suppliedRound])] ''g1'' = Some a \<and>
     attrNoOfRounds a = 2 \<and> startDate a = Some ''2024-03-15''"
proof -
  have "''g1'' \<in> set (map fst [(''g1'', [suppliedRound])])" by simp
  from grade_attributes [OF this, of "[''g1'' \<mapsto> [datedRound]]"]
  show ?thesis by (simp add: existingFor_def suppliedFor_def datedRound_def numeral_2_eq_2)
qed


text \<open>
  C9 as the specification states it fails: with a first persisted round whose date is the
  empty string, the start date is the date of the first supplied round.
\<close>

theorem start_date_counterexample:
  "existingFor [''g1'' \<mapsto> [emptyDateRound]] ''g1'' = [emptyDateRound] \<and>
   roundProvisionalDate emptyDateRound = '''' \<and>
   map_option startDate (calculateGradeAttributes [''g1'' \<mapsto> [emptyDateRound]] [(''g1'', [suppliedRound])] ''g1'')
     = Some (Some ''2025-01-01'')"
  by (simp add: calculateGradeAttributes_at existingFor_def suppliedFor_def firstDate_def
      emptyDateRound_def suppliedRound_def)


section \<open>Properties of the persist service\<close>

subsection \<open>Inside the transaction\<close>

lemma txnStep_refl: "pending c \<noteq> None \<Longrightarrow> txnStep False c c"
  by (simp add: txnStep_def)

lemma txnStep_trans:
  "txnStep False c c' \<Longrightarrow> txnStep failed c' c'' \<Longrightarrow> txnStep failed c c''"
  by (auto simp: txnStep_def)

lemma txnStep_failed: "txnStep failed c c' \<Longrightarrow> txnStep True c c'"
  by (auto simp: txnStep_def)

lemma txnStep_pending: "txnStep failed c c' \<Longrightarrow> pending c' \<noteq> None"
  by (simp add: txnStep_def)

lemma query_txnStep:
  assumes "dataStatement stmt" and "pending c \<noteq> None" and "query db stmt c = (res, c')"
  shows "txnStep (isl res) c c'"
  using assms
  by (cases stmt)
     (auto simp: dataStatement_def query_def txnStep_def Let_def logged_def writeTables_def
        gameIds_def current_def split: option.splits if_splits)

lemma persistGames_txnStep:
  "pending c \<noteq> None \<Longrightarrow> persistGames db rid gs acc c = (res, c') \<Longrightarrow> txnStep (isl res) c c'"
proof (induction gs arbitrary: acc c)
  case Nil
  then show ?case by (auto simp: txnStep_refl)
next
  case (Cons g gs)
  obtain gameIDs tIDs where acc: "acc = (gameIDs, tIDs)" by (cases acc)
  let ?stmt = "CreateGame (gameId g) rid (homeTeamID g) (awayTeamID g) (gameDate g)
      (case provisionalDates g of Some ds \<Rightarrow> ds | None \<Rightarrow> [])"
  obtain r1 c1 where q: "query db ?stmt c = (r1, c1)" by (cases "query db ?stmt c")
  have step: "txnStep (isl r1) c c1"
    using query_txnStep [OF _ Cons.prems(1) q] by (simp add: dataStatement_def)
  show ?case
  proof (cases r1)
    case (Inl e)
    with step q acc Cons.prems(2) show ?thesis by auto
  next
    case (Inr rows)
    with step have ok: "txnStep False c c1" by simp
    show ?thesis
    proof (cases rows)
      case (GameIdRow gid)
      with Cons.prems(2) q acc Inr have
        "persistGames db rid gs (gameIDs @ [gid], tIDs @ [homeTeamID g, awayTeamID g]) c1 = (res, c')"
        by simp
      from Cons.IH [OF txnStep_pending [OF ok] this] ok show ?thesis
        by (rule txnStep_trans [rotated])
    next
      case NoRows
      with ok q acc Inr Cons.prems(2) show ?thesis by (auto intro: txnStep_failed)
    next
      case (RoundIdRow n)
      with ok q acc Inr Cons.prems(2) show ?thesis by (auto intro: txnStep_failed)
    qed
  qed
qed

lemma persistRound_txnStep:
  assumes "pending c \<noteq> None" and "persistRound db g rp c = (res, c')"
  shows "txnStep (isl res) c c'"
proof -
  let ?stmt = "CreateRound g (sequenceNo (roundInfo rp)) (provisionalDate (roundInfo rp))"
  obtain r1 c1 where q: "query db ?stmt c = (r1, c1)" by (cases "query db ?stmt c")
  have step: "txnStep (isl r1) c c1"
    using query_txnStep [OF _ assms(1) q] by (simp add: dataStatement_def)
  show ?thesis
  proof (cases r1)
    case (Inl e)
    with step q assms(2) show ?thesis by (auto simp: persistRound_def)
  next
    case (Inr rows)
    with step have ok: "txnStep False c c1" by simp
    show ?thesis
    proof (cases rows)
      case (RoundIdRow rid)
      with assms(2) q Inr have "persistGames db rid (games rp) ([], []) c1 = (res, c')"
        by (simp add: persistRound_def)
      from persistGames_txnStep [OF txnStep_pending [OF ok] this] ok show ?thesis
        by (rule txnStep_trans [rotated])
    next
      case NoRows
      with ok q Inr assms(2) show ?thesis by (auto simp: persistRound_def intro: txnStep_failed)
    next
      case (GameIdRow x)
      with ok q Inr assms(2) show ?thesis by (auto simp: persistRound_def intro: txnStep_failed)
    qed
  qed
qed

lemma updateGradeAttributes_txnStep:
  assumes "pending c \<noteq> None" and "updateGradeAttributes db g attrs c = (res, c')"
  shows "txnStep (isl res) c c'"
proof (cases attrs)
  case None
  with assms show ?thesis by (auto simp: updateGradeAttributes_def txnStep_def)
next
  case (Some a)
  let ?stmt = "UpdateGrade g (attrNoOfRounds a) (startDate a)"
  obtain r1 c1 where q: "query db ?stmt c = (r1, c1)" by (cases "query db ?stmt c")
  have "txnStep (isl r1) c c1"
    using query_txnStep [OF _ assms(1) q] by (simp add: dataStatement_def)
  with assms(2) Some q show ?thesis
    by (cases r1) (auto simp: updateGradeAttributes_def)
qed

lemma persistRounds_txnStep:
  "pending c \<noteq> None \<Longrightarrow> persistRounds db g rps acc c = (res, c') \<Longrightarrow> txnStep (isl res) c c'"
proof (induction rps arbitrary: acc c)
  case Nil
  then show ?case by (auto simp: txnStep_refl)
next
  case (Cons rp rps)
  obtain allGameIDs allTeamIDs where acc: "acc = (allGameIDs, allTeamIDs)" by (cases acc)
  obtain r1 c1 where q: "persistRound db g rp c = (r1, c1)" by (cases "persistRound db g rp c")
  have step: "txnStep (isl r1) c c1" using persistRound_txnStep [OF Cons.prems(1) q] .
  show ?case
  proof (cases r1)
    case (Inl e)
    with step q acc Cons.prems(2) show ?thesis by auto
  next
    case (Inr ids)
    with step have ok: "txnStep False c c1" by simp
    obtain gameIDs tIDs where ids: "ids = (gameIDs, tIDs)" by (cases ids)
    with Cons.prems(2) q acc Inr have
      "persistRounds db g rps (allGameIDs @ gameIDs, allTeamIDs @ tIDs) c1 = (res, c')"
      by simp
    from Cons.IH [OF txnStep_pending [OF ok] this] ok show ?thesis
      by (rule txnStep_trans [rotated])
  qed
qed

lemma persistGrades_txnStep:
  "pending c \<noteq> None \<Longrightarrow> persistGrades db rp ga ids acc c = (res, c') \<Longrightarrow> txnStep (isl res) c c'"
proof (induction ids arbitrary: acc c)
  case Nil
  then show ?case by (auto simp: txnStep_refl)
next
  case (Cons g ids)
  obtain r1 c1 where q1: "persistRounds db g (suppliedFor rp g) acc c = (r1, c1)"
    by (cases "persistRounds db g (suppliedFor rp g) acc c")
  have step1: "txnStep (isl r1) c c1" using persistRounds_txnStep [OF Cons.prems(1) q1] .
  show ?case
  proof (cases r1)
    case (Inl e)
    with step1 q1 Cons.prems(2) show ?thesis by auto
  next
    case (Inr acc')
    with step1 have ok1: "txnStep False c c1" by simp
    obtain r2 c2 where q2: "updateGradeAttributes db g (ga g) c1 = (r2, c2)"
      by (cases "updateGradeAttributes db g (ga g) c1")
    have step2: "txnStep (isl r2) c1 c2"
      using updateGradeAttributes_txnStep [OF txnStep_pending [OF ok1] q2] .
    show ?thesis
    proof (cases r2)
      case (Inl e)
      with Cons.prems(2) q1 q2 Inr have "res = Inl e" "c' = c2" by simp_all
      with step2 Inl ok1 show ?thesis by (auto intro: txnStep_trans)
    next
      case (Inr u)
      with step2 have ok2: "txnStep False c1 c2" by simp
      from Cons.prems(2) q1 q2 \<open>r1 = Inr acc'\<close> Inr have
        "persistGrades db rp ga ids acc' c2 = (res, c')" by simp
      from Cons.IH [OF txnStep_pending [OF ok2] this] have "txnStep (isl res) c2 c'" .
      with ok1 ok2 show ?thesis by (blast intro: txnStep_trans)
    qed
  qed
qed


lemma persistBody_outcome:
  assumes "pending c = None" and "persistBody db rp ga c = (res, c1)"
  shows "(isl res \<longrightarrow> committed c1 = committed c) \<and>
         (\<exists>new. queryLog c1 = queryLog c @ new \<and> (isl res \<or> list_all snd new))"
proof (cases "failsAt db (length (queryLog c))")
  case True
  with assms show ?thesis
    by (auto simp: persistBody_def query_def Let_def logged_def)
next
  case False
  let ?c0 = "logged BEGIN True (c\<lparr>pending := Some (current c)\<rparr>)"
  from False have b: "query db BEGIN c = (Inr NoRows, ?c0)"
    by (simp add: query_def Let_def)
  have c0: "pending ?c0 \<noteq> None" "committed ?c0 = committed c"
    "queryLog ?c0 = queryLog c @ [(BEGIN, True)]"
    by (simp_all add: logged_def)
  obtain r2 c2 where g: "persistGrades db rp ga (map fst rp) ([], []) ?c0 = (r2, c2)"
    by (cases "persistGrades db rp ga (map fst rp) ([], []) ?c0")
  from persistGrades_txnStep [OF c0(1) g] have step: "txnStep (isl r2) ?c0 c2" .
  then obtain new where new: "committed c2 = committed c"
    "queryLog c2 = queryLog c @ (BEGIN, True) # new" "isl r2 \<or> list_all snd new"
    using c0 by (auto simp: txnStep_def)
  from step have p2: "pending c2 \<noteq> None" by (rule txnStep_pending)
  show ?thesis
  proof (cases r2)
    case (Inl e)
    with assms(2) b g have "res = Inl e" "c1 = c2" by (simp_all add: persistBody_def)
    with new show ?thesis by auto
  next
    case (Inr ids)
    obtain allGameIDs allTeamIDs where ids: "ids = (allGameIDs, allTeamIDs)" by (cases ids)
    show ?thesis
    proof (cases "failsAt db (length (queryLog c2))")
      case True
      with assms(2) b g Inr ids have "isl res" "c1 = logged COMMIT False c2"
        by (auto simp: persistBody_def query_def Let_def)
      with new show ?thesis by (auto simp: logged_def)
    next
      case False
      with assms(2) b g Inr ids have "\<not> isl res"
        "c1 = logged COMMIT True (c2\<lparr>committed := current c2, pending := None\<rparr>)"
        by (auto simp: persistBody_def query_def Let_def)
      with new Inr show ?thesis by (auto simp: logged_def)
    qed
  qed
qed


lemma gameStatement_data:
  "dataStatement (CreateGame gid rid home away d pds)"
  "dataStatement (CreateRound g n d)"
  "dataStatement (UpdateGrade g k sd)"
  by (simp_all add: dataStatement_def)

lemma query_CreateGame_inserted:
  "query db (CreateGame gid rid home away d pds) c = (Inr r, c') \<Longrightarrow> gid \<in> gameIds c'"
  by (auto simp: query_def Let_def logged_def writeTables_def gameIds_def current_def
      split: if_splits option.splits)

lemma query_CreateGame_repeated:
  assumes "gameIdUnique db" and "gid \<in> gameIds c"
  shows "isl (fst (query db (CreateGame gid rid home away d pds) c))"
  using assms by (simp add: query_def Let_def gameIds_def)

lemma persistGames_Cons_cases:
  assumes "persistGames db rid (g # gs) acc c = (Inr r, c')"
  obtains gid c1 acc1 where
    "query db (CreateGame (gameId g) rid (homeTeamID g) (awayTeamID g) (gameDate g)
        (case provisionalDates g of Some ds \<Rightarrow> ds | None \<Rightarrow> [])) c = (Inr (GameIdRow gid), c1)"
    "persistGames db rid gs acc1 c1 = (Inr r, c')"
  using assms
  by (cases acc) (auto split: prod.splits sum.splits QueryRows.splits)

lemma persistGames_inserted:
  "pending c \<noteq> None \<Longrightarrow> persistGames db rid gs acc c = (Inr r, c') \<Longrightarrow>
   set (map gameId gs) \<subseteq> gameIds c'"
proof (induction gs arbitrary: acc c)
  case Nil
  then show ?case by simp
next
  case (Cons g gs)
  from Cons.prems(2) obtain gid c1 acc1 where
    q: "query db (CreateGame (gameId g) rid (homeTeamID g) (awayTeamID g) (gameDate g)
        (case provisionalDates g of Some ds \<Rightarrow> ds | None \<Rightarrow> [])) c = (Inr (GameIdRow gid), c1)"
    and rest: "persistGames db rid gs acc1 c1 = (Inr r, c')"
    by (rule persistGames_Cons_cases)
  from query_txnStep [OF gameStatement_data(1) Cons.prems(1) q] have p1: "pending c1 \<noteq> None"
    by (rule txnStep_pending)
  from persistGames_txnStep [OF p1 rest] have "gameIds c1 \<subseteq> gameIds c'"
    by (simp add: txnStep_def)
  moreover from q have "gameId g \<in> gameIds c1" by (rule query_CreateGame_inserted)
  moreover from Cons.IH [OF p1 rest] have "set (map gameId gs) \<subseteq> gameIds c'" .
  ultimately show ?case by auto
qed

lemma persistRound_cases:
  assumes "persistRound db g rp c = (Inr r, c')"
  obtains rid c1 where
    "query db (CreateRound g (sequenceNo (roundInfo rp)) (provisionalDate (roundInfo rp))) c =
       (Inr (RoundIdRow rid), c1)"
    "persistGames db rid (games rp) ([], []) c1 = (Inr r, c')"
  using assms
  by (auto simp: persistRound_def split: prod.splits sum.splits QueryRows.splits)

lemma persistRound_inserted:
  assumes "pending c \<noteq> None" and "persistRound db g rp c = (Inr r, c')"
  shows "set (map gameId (games rp)) \<subseteq> gameIds c'"
proof -
  from assms(2) obtain rid c1 where
    q: "query db (CreateRound g (sequenceNo (roundInfo rp)) (provisionalDate (roundInfo rp))) c =
       (Inr (RoundIdRow rid), c1)"
    and rest: "persistGames db rid (games rp) ([], []) c1 = (Inr r, c')"
    by (rule persistRound_cases)
  from query_txnStep [OF gameStatement_data(2) assms(1) q] have "pending c1 \<noteq> None"
    by (rule txnStep_pending)
  from persistGames_inserted [OF this rest] show ?thesis .
qed

lemma persistRounds_Cons_cases:
  assumes "persistRounds db g (rp # rps) acc c = (Inr r, c')"
  obtains ids c1 acc1 where
    "persistRound db g rp c = (Inr ids, c1)" "persistRounds db g rps acc1 c1 = (Inr r, c')"
  using assms
  by (cases acc) (auto split: prod.splits sum.splits)

lemma persistRounds_inserted:
  "pending c \<noteq> None \<Longrightarrow> persistRounds db g rps acc c = (Inr r, c') \<Longrightarrow>
   \<forall>rp \<in> set rps. set (map gameId (games rp)) \<subseteq> gameIds c'"
proof (induction rps arbitrary: acc c)
  case Nil
  then show ?case by simp
next
  case (Cons rp rps)
  from Cons.prems(2) obtain ids c1 acc1 where
    q: "persistRound db g rp c = (Inr ids, c1)"
    and rest: "persistRounds db g rps acc1 c1 = (Inr r, c')"
    by (rule persistRounds_Cons_cases)
  from persistRound_txnStep [OF Cons.prems(1) q] have p1: "pending c1 \<noteq> None"
    by (rule txnStep_pending)
  from persistRounds_txnStep [OF p1 rest] have "gameIds c1 \<subseteq> gameIds c'"
    by (simp add: txnStep_def)
  moreover from persistRound_inserted [OF Cons.prems(1) q]
  have "set (map gameId (games rp)) \<subseteq> gameIds c1" .
  moreover note Cons.IH [OF p1 rest]
  ultimately show ?case by auto
qed

lemma persistGrades_Cons_cases:
  assumes "persistGrades db roundsParams ga (g # ids) acc c = (Inr r, c')"
  obtains acc1 c1 u c2 where
    "persistRounds db g (suppliedFor roundsParams g) acc c = (Inr acc1, c1)"
    "updateGradeAttributes db g (ga g) c1 = (Inr u, c2)"
    "persistGrades db roundsParams ga ids acc1 c2 = (Inr r, c')"
  using assms
  by (auto split: prod.splits sum.splits)

lemma persistGrades_inserted:
  "pending c \<noteq> None \<Longrightarrow> persistGrades db roundsParams ga ids acc c = (Inr r, c') \<Longrightarrow>
   \<forall>g \<in> set ids. \<forall>rp \<in> set (suppliedFor roundsParams g). set (map gameId (games rp)) \<subseteq> gameIds c'"
proof (induction ids arbitrary: acc c)
  case Nil
  then show ?case by simp
next
  case (Cons g ids)
  from Cons.prems(2) obtain acc1 c1 u c2 where
    q1: "persistRounds db g (suppliedFor roundsParams g) acc c = (Inr acc1, c1)"
    and q2: "updateGradeAttributes db g (ga g) c1 = (Inr u, c2)"
    and rest: "persistGrades db roundsParams ga ids acc1 c2 = (Inr r, c')"
    by (rule persistGrades_Cons_cases)
  from persistRounds_txnStep [OF Cons.prems(1) q1] have p1: "pending c1 \<noteq> None"
    by (rule txnStep_pending)
  from updateGradeAttributes_txnStep [OF p1 q2]
  have p2: "pending c2 \<noteq> None" and m2: "gameIds c1 \<subseteq> gameIds c2"
    by (simp_all add: txnStep_def)
  from persistGrades_txnStep [OF p2 rest] have "gameIds c2 \<subseteq> gameIds c'"
    by (simp add: txnStep_def)
  moreover from persistRounds_inserted [OF Cons.prems(1) q1]
  have "\<forall>rp \<in> set (suppliedFor roundsParams g). set (map gameId (games rp)) \<subseteq> gameIds c1" .
  moreover note m2 Cons.IH [OF p2 rest]
  ultimately show ?case by (simp add: subset_iff)
qed

lemma gamesOf_member:
  assumes "g \<in> set (map fst roundsParams)" and "rp \<in> set (suppliedFor roundsParams g)"
  shows "set (games rp) \<subseteq> set (gamesOf roundsParams)"
  using assms by (fastforce simp: gamesOf_def)

lemma gamesOf_nonempty:
  assumes "gamesOf roundsParams \<noteq> []"
  shows "\<exists>g \<in> set (map fst roundsParams). \<exists>rp \<in> set (suppliedFor roundsParams g). games rp \<noteq> []"
  using assms by (auto simp: gamesOf_def)

lemma persistBody_success:
  assumes "pending c = None" and "persistBody db roundsParams ga c = (Inr r, c')"
  shows "pending c' = None \<and>
         set (map gameId (gamesOf roundsParams)) \<subseteq> set (map game_id (gamesTable (committed c')))"
proof -
  from assms(2) obtain c0 ids c2 where
    b: "query db BEGIN c = (Inr NoRows, c0)"
    and g: "persistGrades db roundsParams ga (map fst roundsParams) ([], []) c0 = (Inr ids, c2)"
    and k: "query db COMMIT c2 = (Inr NoRows, c')"
    by (auto simp: persistBody_def Let_def query_def split: prod.splits sum.splits if_splits)
  from b have p0: "pending c0 \<noteq> None"
    by (auto simp: query_def Let_def logged_def split: if_splits)
  from persistGrades_inserted [OF p0 g]
  have "set (map gameId (gamesOf roundsParams)) \<subseteq> gameIds c2"
    by (fastforce simp: gamesOf_def)
  moreover from k have "pending c' = None" "committed c' = current c2"
    by (auto simp: query_def Let_def logged_def split: if_splits)
  ultimately show ?thesis by (simp add: gameIds_def)
qed

lemma persistGames_repeated:
  assumes "gameIdUnique db" and "gs \<noteq> []" and "set (map gameId gs) \<subseteq> gameIds c"
  shows "isl (fst (persistGames db rid gs acc c))"
proof -
  from assms(2) obtain g rest where gs: "gs = g # rest" by (cases gs) auto
  with assms(3) have "gameId g \<in> gameIds c" by simp
  from query_CreateGame_repeated [OF assms(1) this]
  have "isl (fst (query db (CreateGame (gameId g) rid (homeTeamID g) (awayTeamID g) (gameDate g)
        (case provisionalDates g of Some ds \<Rightarrow> ds | None \<Rightarrow> [])) c))" .
  then show ?thesis
    by (cases acc) (auto simp: gs isl_def split: prod.splits sum.splits)
qed

lemma persistRound_repeated:
  assumes "gameIdUnique db" and "pending c \<noteq> None" and "games rp \<noteq> []"
    and "set (map gameId (games rp)) \<subseteq> gameIds c"
  shows "isl (fst (persistRound db g rp c))"
proof -
  let ?stmt = "CreateRound g (sequenceNo (roundInfo rp)) (provisionalDate (roundInfo rp))"
  obtain r1 c1 where q: "query db ?stmt c = (r1, c1)" by (cases "query db ?stmt c")
  from query_txnStep [OF gameStatement_data(2) assms(2) q] assms(4)
  have "set (map gameId (games rp)) \<subseteq> gameIds c1" by (auto simp: txnStep_def)
  from persistGames_repeated [OF assms(1,3) this]
  have "\<And>rid. isl (fst (persistGames db rid (games rp) ([], []) c1))" .
  with q show ?thesis
    by (auto simp: persistRound_def split: sum.splits QueryRows.splits)
qed

lemma persistRounds_repeated:
  "gameIdUnique db \<Longrightarrow> pending c \<noteq> None \<Longrightarrow> \<exists>rp \<in> set rps. games rp \<noteq> [] \<Longrightarrow>
   \<forall>rp \<in> set rps. set (map gameId (games rp)) \<subseteq> gameIds c \<Longrightarrow>
   isl (fst (persistRounds db g rps acc c))"
proof (induction rps arbitrary: acc c)
  case Nil
  then show ?case by simp
next
  case (Cons rp rps)
  obtain allGameIDs allTeamIDs where acc: "acc = (allGameIDs, allTeamIDs)" by (cases acc)
  obtain r1 c1 where q: "persistRound db g rp c = (r1, c1)" by (cases "persistRound db g rp c")
  show ?case
  proof (cases r1)
    case (Inl e)
    with q acc show ?thesis by simp
  next
    case (Inr ids)
    obtain gameIDs tIDs where ids: "ids = (gameIDs, tIDs)" by (cases ids)
    have "games rp = []"
    proof (rule ccontr)
      assume "games rp \<noteq> []"
      from persistRound_repeated [OF Cons.prems(1,2) this] Cons.prems(4)
      have "isl (fst (persistRound db g rp c))" by simp
      with q Inr show False by simp
    qed
    with Cons.prems(3) have some: "\<exists>rp \<in> set rps. games rp \<noteq> []" by auto
    from persistRound_txnStep [OF Cons.prems(2) q]
    have p1: "pending c1 \<noteq> None" and m: "gameIds c \<subseteq> gameIds c1"
      by (simp_all add: txnStep_def)
    from Cons.prems(4) m have "\<forall>rp \<in> set rps. set (map gameId (games rp)) \<subseteq> gameIds c1"
      by (meson list.set_intros(2) order_trans)
    from Cons.IH [OF Cons.prems(1) p1 some this] q acc Inr ids show ?thesis by simp
  qed
qed

lemma persistGrades_repeated:
  "gameIdUnique db \<Longrightarrow> pending c \<noteq> None \<Longrightarrow>
   \<exists>g \<in> set ids. \<exists>rp \<in> set (suppliedFor roundsParams g). games rp \<noteq> [] \<Longrightarrow>
   \<forall>g \<in> set ids. \<forall>rp \<in> set (suppliedFor roundsParams g). set (map gameId (games rp)) \<subseteq> gameIds c \<Longrightarrow>
   isl (fst (persistGrades db roundsParams ga ids acc c))"
proof (induction ids arbitrary: acc c)
  case Nil
  then show ?case by simp
next
  case (Cons g ids)
  obtain r1 c1 where q1: "persistRounds db g (suppliedFor roundsParams g) acc c = (r1, c1)"
    by (cases "persistRounds db g (suppliedFor roundsParams g) acc c")
  show ?case
  proof (cases r1)
    case (Inl e)
    with q1 show ?thesis by simp
  next
    case (Inr acc1)
    have none: "\<not> (\<exists>rp \<in> set (suppliedFor roundsParams g). games rp \<noteq> [])"
    proof
      assume "\<exists>rp \<in> set (suppliedFor roundsParams g). games rp \<noteq> []"
      from persistRounds_repeated [OF Cons.prems(1,2) this] Cons.prems(4)
      have "isl (fst (persistRounds db g (suppliedFor roundsParams g) acc c))" by simp
      with q1 Inr show False by simp
    qed
    with Cons.prems(3)
    have some: "\<exists>g \<in> set ids. \<exists>rp \<in> set (suppliedFor roundsParams g). games rp \<noteq> []"
      by auto
    from persistRounds_txnStep [OF Cons.prems(2) q1]
    have p1: "pending c1 \<noteq> None" and m1: "gameIds c \<subseteq> gameIds c1"
      by (simp_all add: txnStep_def)
    obtain r2 c2 where q2: "updateGradeAttributes db g (ga g) c1 = (r2, c2)"
      by (cases "updateGradeAttributes db g (ga g) c1")
    show ?thesis
    proof (cases r2)
      case (Inl e)
      with q1 q2 \<open>r1 = Inr acc1\<close> show ?thesis by simp
    next
      case (Inr u)
      from updateGradeAttributes_txnStep [OF p1 q2]
      have p2: "pending c2 \<noteq> None" and m2: "gameIds c1 \<subseteq> gameIds c2"
        by (simp_all add: txnStep_def)
      from Cons.prems(4) m1 m2
      have "\<forall>g \<in> set ids. \<forall>rp \<in> set (suppliedFor roundsParams g).
              set (map gameId (games rp)) \<subseteq> gameIds c2"
        by (meson list.set_intros(2) order_trans)
      from Cons.IH [OF Cons.prems(1) p2 some this] q1 q2 \<open>r1 = Inr acc1\<close> Inr
      show ?thesis by simp
    qed
  qed
qed

lemma persistBody_repeated:
  assumes "gameIdUnique db" and "pending c = None" and "gamesOf roundsParams \<noteq> []"
    and "set (map gameId (gamesOf roundsParams)) \<subseteq> set (map game_id (gamesTable (committed c)))"
  shows "isl (fst (persistBody db roundsParams ga c))"
proof (cases "failsAt db (length (queryLog c))")
  case True
  then show ?thesis by (simp add: persistBody_def query_def Let_def)
next
  case False
  let ?c0 = "logged BEGIN True (c\<lparr>pending := Some (current c)\<rparr>)"
  from False have b: "query db BEGIN c = (Inr NoRows, ?c0)"
    by (simp add: query_def Let_def)
  have p0: "pending ?c0 \<noteq> None" by (simp add: logged_def)
  have ids0: "gameIds ?c0 = set (map game_id (gamesTable (committed c)))"
    using assms(2) by (simp add: gameIds_def current_def logged_def)
  from assms(3) have some: "\<exists>g \<in> set (map fst roundsParams).
      \<exists>rp \<in> set (suppliedFor roundsParams g). games rp \<noteq> []"
    by (rule gamesOf_nonempty)
  have "\<forall>g \<in> set (map fst roundsParams).
      \<forall>rp \<in> set (suppliedFor roundsParams g). set (map gameId (games rp)) \<subseteq> gameIds ?c0"
  proof (intro ballI)
    fix g rp assume "g \<in> set (map fst roundsParams)" "rp \<in> set (suppliedFor roundsParams g)"
    then have "set (games rp) \<subseteq> set (gamesOf roundsParams)" by (rule gamesOf_member)
    then have "set (map gameId (games rp)) \<subseteq> set (map gameId (gamesOf roundsParams))" by auto
    with assms(4) ids0 show "set (map gameId (games rp)) \<subseteq> gameIds ?c0" by simp
  qed
  from persistGrades_repeated [OF assms(1) p0 some this]
  have "isl (fst (persistGrades db roundsParams ga (map fst roundsParams) ([], []) ?c0))" .
  with b show ?thesis
    by (auto simp: persistBody_def Let_def isl_def split: prod.splits sum.splits)
qed

lemma persist_outcome:
  assumes "pending c = None" and "persist db roundsParams ctype ga c = (res, c')"
  shows "(\<exists>s \<in> set (issued c c'). \<not> snd s) \<longrightarrow> isl res"
    and "isl res \<longrightarrow> committed c' = committed c"
    and "isl res \<longrightarrow> rolledBack c' \<longrightarrow>
           pending c' = None \<and> res = fst (persistBody db roundsParams ga c)"
    and "isl res \<longrightarrow> \<not> rolledBack c' \<longrightarrow>
           res = Inl (StatementFailed (length (queryLog c') - 1)) \<and>
           pending c' = pending (snd (persistBody db roundsParams ga c))"
    and "\<exists>new. queryLog c' = queryLog c @ new"
proof -
  obtain r1 c1 where b: "persistBody db roundsParams ga c = (r1, c1)"
    by (cases "persistBody db roundsParams ga c")
  from persistBody_outcome [OF assms(1) b] obtain new where
    out: "isl r1 \<longrightarrow> committed c1 = committed c"
      "queryLog c1 = queryLog c @ new" "isl r1 \<or> list_all snd new"
    by blast
  have "((\<exists>s \<in> set (issued c c'). \<not> snd s) \<longrightarrow> isl res) \<and>
        (isl res \<longrightarrow> committed c' = committed c) \<and>
        (isl res \<longrightarrow> rolledBack c' \<longrightarrow> pending c' = None \<and> res = r1) \<and>
        (isl res \<longrightarrow> \<not> rolledBack c' \<longrightarrow>
           res = Inl (StatementFailed (length (queryLog c') - 1)) \<and> pending c' = pending c1) \<and>
        (\<exists>new. queryLog c' = queryLog c @ new)"
  proof (cases r1)
    case (Inl e)
    show ?thesis
    proof (cases "failsAt db (length (queryLog c1))")
      case True
      with assms(2) b Inl have "res = Inl (StatementFailed (length (queryLog c1)))"
        "c' = logged ROLLBACK False c1"
        by (simp_all add: persist_def query_def Let_def)
      with out Inl show ?thesis by (simp add: logged_def rolledBack_def)
    next
      case False
      with assms(2) b Inl have "res = Inl e" "c' = logged ROLLBACK True (c1\<lparr>pending := None\<rparr>)"
        by (simp_all add: persist_def query_def Let_def)
      with out Inl show ?thesis by (simp add: logged_def rolledBack_def)
    qed
  next
    case (Inr r)
    with assms(2) b have "res = Inr r" "c' = c1" by (simp_all add: persist_def)
    with out Inr show ?thesis by (auto simp: issued_def list_all_iff)
  qed
  with b show "(\<exists>s \<in> set (issued c c'). \<not> snd s) \<longrightarrow> isl res"
    and "isl res \<longrightarrow> committed c' = committed c"
    and "isl res \<longrightarrow> rolledBack c' \<longrightarrow>
           pending c' = None \<and> res = fst (persistBody db roundsParams ga c)"
    and "isl res \<longrightarrow> \<not> rolledBack c' \<longrightarrow>
           res = Inl (StatementFailed (length (queryLog c') - 1)) \<and>
           pending c' = pending (snd (persistBody db roundsParams ga c))"
    and "\<exists>new. queryLog c' = queryLog c @ new"
    by simp_all
qed

lemmas persist_eval =
  persist_def persistBody_def query_def Let_def logged_def writeTables_def current_def
  sampleDatabase_def sampleRoundsParams_def sampleAttributes_def sampleClient_def sampleTables_def
  suppliedFor_def persistRound_def updateGradeAttributes_def sampleGame_def sameRoundKey_def





subsection \<open>Running persist again\<close>

lemma noFaultsFrom_txnStep: "txnStep failed c c' \<Longrightarrow> noFaultsFrom db c \<Longrightarrow> noFaultsFrom db c'"
  by (auto simp: txnStep_def noFaultsFrom_def)

lemma query_CreateRound_ok:
  assumes "noFaultsFrom db c"
  shows "\<exists>rid c'. query db (CreateRound g n d) c = (Inr (RoundIdRow rid), c')"
  using assms by (auto simp: query_def Let_def noFaultsFrom_def split: option.splits)

lemma query_UpdateGrade_ok:
  assumes "noFaultsFrom db c"
  shows "\<exists>c'. query db (UpdateGrade g k sd) c = (Inr NoRows, c')"
  using assms by (auto simp: query_def Let_def noFaultsFrom_def)

lemma query_CreateGame_violation:
  assumes "noFaultsFrom db c" and "gameIdUnique db" and "gid \<in> gameIds c"
  shows "fst (query db (CreateGame gid rid home away d pds) c) = Inl (UniqueViolation gid)"
  using assms by (simp add: query_def Let_def noFaultsFrom_def gameIds_def)

lemma persistGames_violation:
  assumes "noFaultsFrom db c" and "gameIdUnique db" and "gs \<noteq> []"
    and "set (map gameId gs) \<subseteq> gameIds c"
  shows "fst (persistGames db rid gs acc c) = Inl (UniqueViolation (gameId (hd gs)))"
proof -
  from assms(3) obtain g rest where gs: "gs = g # rest" by (cases gs) auto
  with assms(4) have "gameId g \<in> gameIds c" by simp
  from query_CreateGame_violation [OF assms(1,2) this]
  have "fst (query db (CreateGame (gameId g) rid (homeTeamID g) (awayTeamID g) (gameDate g)
        (case provisionalDates g of Some ds \<Rightarrow> ds | None \<Rightarrow> [])) c) =
      Inl (UniqueViolation (gameId g))" .
  then show ?thesis
    by (cases acc) (auto simp: gs split: prod.splits sum.splits)
qed

lemma persistRound_violation:
  assumes "noFaultsFrom db c" and "gameIdUnique db" and "pending c \<noteq> None"
    and "games rp \<noteq> []" and "set (map gameId (games rp)) \<subseteq> gameIds c"
  shows "fst (persistRound db g rp c) = Inl (UniqueViolation (gameId (hd (games rp))))"
proof -
  from query_CreateRound_ok [OF assms(1)] obtain rid c1 where
    q: "query db (CreateRound g (sequenceNo (roundInfo rp)) (provisionalDate (roundInfo rp))) c =
       (Inr (RoundIdRow rid), c1)"
    by blast
  from query_txnStep [OF gameStatement_data(2) assms(3) q] have step: "txnStep False c c1" by simp
  from noFaultsFrom_txnStep [OF step assms(1)] have nf: "noFaultsFrom db c1" .
  from step assms(5) have "set (map gameId (games rp)) \<subseteq> gameIds c1"
    by (auto simp: txnStep_def)
  from persistGames_violation [OF nf assms(2,4) this] q show ?thesis
    by (simp add: persistRound_def)
qed

lemma persistRound_empty:
  assumes "noFaultsFrom db c" and "games rp = []"
  shows "\<exists>c'. persistRound db g rp c = (Inr ([], []), c')"
proof -
  from query_CreateRound_ok [OF assms(1)] obtain rid c1 where
    "query db (CreateRound g (sequenceNo (roundInfo rp)) (provisionalDate (roundInfo rp))) c =
       (Inr (RoundIdRow rid), c1)"
    by blast
  with assms(2) show ?thesis by (simp add: persistRound_def)
qed

lemma persistRounds_violation:
  "noFaultsFrom db c \<Longrightarrow> gameIdUnique db \<Longrightarrow> pending c \<noteq> None \<Longrightarrow>
   concat (map games rps) \<noteq> [] \<Longrightarrow>
   \<forall>rp \<in> set rps. set (map gameId (games rp)) \<subseteq> gameIds c \<Longrightarrow>
   fst (persistRounds db g rps acc c) =
     Inl (UniqueViolation (gameId (hd (concat (map games rps)))))"
proof (induction rps arbitrary: acc c)
  case Nil
  then show ?case by simp
next
  case (Cons rp rps)
  obtain allGameIDs allTeamIDs where acc: "acc = (allGameIDs, allTeamIDs)" by (cases acc)
  show ?case
  proof (cases "games rp = []")
    case False
    from Cons.prems(5) have "set (map gameId (games rp)) \<subseteq> gameIds c" by simp
    from persistRound_violation [OF Cons.prems(1,2,3) False this]
    have "fst (persistRound db g rp c) = Inl (UniqueViolation (gameId (hd (games rp))))" .
    with False acc show ?thesis by (auto split: prod.splits sum.splits)
  next
    case True
    from persistRound_empty [OF Cons.prems(1) True] obtain c1 where
      q: "persistRound db g rp c = (Inr ([], []), c1)" by blast
    from persistRound_txnStep [OF Cons.prems(3) q] have step: "txnStep False c c1" by simp
    from noFaultsFrom_txnStep [OF step Cons.prems(1)] have nf: "noFaultsFrom db c1" .
    from step have p1: "pending c1 \<noteq> None" by (rule txnStep_pending)
    from True Cons.prems(4) have some: "concat (map games rps) \<noteq> []" by simp
    from step Cons.prems(5)
    have "\<forall>rp \<in> set rps. set (map gameId (games rp)) \<subseteq> gameIds c1"
      unfolding txnStep_def by (meson list.set_intros(2) order_trans)
    from Cons.IH [OF nf Cons.prems(2) p1 some this] q acc True show ?thesis by simp
  qed
qed

lemma persistRounds_empty:
  "noFaultsFrom db c \<Longrightarrow> pending c \<noteq> None \<Longrightarrow> concat (map games rps) = [] \<Longrightarrow>
   \<exists>acc' c'. persistRounds db g rps acc c = (Inr acc', c')"
proof (induction rps arbitrary: acc c)
  case Nil
  then show ?case by simp
next
  case (Cons rp rps)
  obtain allGameIDs allTeamIDs where acc: "acc = (allGameIDs, allTeamIDs)" by (cases acc)
  from Cons.prems(3) have none: "games rp = []" "concat (map games rps) = []" by simp_all
  from persistRound_empty [OF Cons.prems(1) none(1)] obtain c1 where
    q: "persistRound db g rp c = (Inr ([], []), c1)" by blast
  from persistRound_txnStep [OF Cons.prems(2) q] have step: "txnStep False c c1" by simp
  from Cons.IH [OF noFaultsFrom_txnStep [OF step Cons.prems(1)] txnStep_pending [OF step] none(2)]
    q acc show ?case by simp
qed

lemma persistGrades_violation:
  "noFaultsFrom db c \<Longrightarrow> gameIdUnique db \<Longrightarrow> pending c \<noteq> None \<Longrightarrow>
   \<forall>g \<in> set ids. ga g \<noteq> None \<Longrightarrow>
   concat (map (\<lambda>g. concat (map games (suppliedFor roundsParams g))) ids) \<noteq> [] \<Longrightarrow>
   \<forall>g \<in> set ids. \<forall>rp \<in> set (suppliedFor roundsParams g). set (map gameId (games rp)) \<subseteq> gameIds c \<Longrightarrow>
   fst (persistGrades db roundsParams ga ids acc c) =
     Inl (UniqueViolation
       (gameId (hd (concat (map (\<lambda>g. concat (map games (suppliedFor roundsParams g))) ids)))))"
proof (induction ids arbitrary: acc c)
  case Nil
  then show ?case by simp
next
  case (Cons g ids)
  let ?own = "concat (map games (suppliedFor roundsParams g))"
  from Cons.prems(6)
  have own: "\<forall>rp \<in> set (suppliedFor roundsParams g). set (map gameId (games rp)) \<subseteq> gameIds c"
    by simp
  show ?case
  proof (cases "?own = []")
    case False
    from persistRounds_violation [OF Cons.prems(1,2,3) False own]
    have "fst (persistRounds db g (suppliedFor roundsParams g) acc c) =
        Inl (UniqueViolation (gameId (hd ?own)))" .
    with False show ?thesis by (auto split: prod.splits sum.splits)
  next
    case True
    from persistRounds_empty [OF Cons.prems(1,3) True] obtain acc1 c1 where
      q1: "persistRounds db g (suppliedFor roundsParams g) acc c = (Inr acc1, c1)" by blast
    from persistRounds_txnStep [OF Cons.prems(3) q1] have step1: "txnStep False c c1" by simp
    from noFaultsFrom_txnStep [OF step1 Cons.prems(1)] have nf1: "noFaultsFrom db c1" .
    from step1 have p1: "pending c1 \<noteq> None" by (rule txnStep_pending)
    from Cons.prems(4) obtain a where a: "ga g = Some a" by auto
    from query_UpdateGrade_ok [OF nf1] obtain c2 where
      "query db (UpdateGrade g (attrNoOfRounds a) (startDate a)) c1 = (Inr NoRows, c2)" by blast
    then have q2: "updateGradeAttributes db g (ga g) c1 = (Inr (), c2)"
      by (simp add: updateGradeAttributes_def a)
    from updateGradeAttributes_txnStep [OF p1 q2] have step2: "txnStep False c1 c2" by simp
    from noFaultsFrom_txnStep [OF step2 nf1] have nf2: "noFaultsFrom db c2" .
    from step2 have p2: "pending c2 \<noteq> None" by (rule txnStep_pending)
    from Cons.prems(4) have attrs: "\<forall>g \<in> set ids. ga g \<noteq> None" by simp
    from True Cons.prems(5)
    have some: "concat (map (\<lambda>g. concat (map games (suppliedFor roundsParams g))) ids) \<noteq> []"
      by simp
    from step1 step2 have "gameIds c \<subseteq> gameIds c2" by (auto simp: txnStep_def)
    with Cons.prems(6)
    have "\<forall>g \<in> set ids. \<forall>rp \<in> set (suppliedFor roundsParams g).
            set (map gameId (games rp)) \<subseteq> gameIds c2"
      by (meson list.set_intros(2) order_trans)
    from Cons.IH [OF nf2 Cons.prems(2) p2 attrs some this]
    have "fst (persistGrades db roundsParams ga ids acc1 c2) =
        Inl (UniqueViolation
          (gameId (hd (concat (map (\<lambda>g. concat (map games (suppliedFor roundsParams g))) ids)))))" .
    with q1 q2 show ?thesis by (simp add: True)
  qed
qed

lemma persistBody_violation:
  assumes "gameIdUnique db" and "pending c = None" and "noFaultsFrom db c"
    and "\<forall>g \<in> set (map fst roundsParams). ga g \<noteq> None" and "gamesOf roundsParams \<noteq> []"
    and "set (map gameId (gamesOf roundsParams)) \<subseteq> set (map game_id (gamesTable (committed c)))"
  shows "fst (persistBody db roundsParams ga c) =
     Inl (UniqueViolation (gameId (hd (gamesOf roundsParams))))"
proof -
  let ?c0 = "logged BEGIN True (c\<lparr>pending := Some (current c)\<rparr>)"
  from assms(3) have b: "query db BEGIN c = (Inr NoRows, ?c0)"
    by (simp add: query_def Let_def noFaultsFrom_def)
  have p0: "pending ?c0 \<noteq> None" by (simp add: logged_def)
  have nf0: "noFaultsFrom db ?c0" using assms(3) by (simp add: noFaultsFrom_def logged_def)
  have ids0: "gameIds ?c0 = set (map game_id (gamesTable (committed c)))"
    using assms(2) by (simp add: gameIds_def current_def logged_def)
  have "\<forall>g \<in> set (map fst roundsParams).
      \<forall>rp \<in> set (suppliedFor roundsParams g). set (map gameId (games rp)) \<subseteq> gameIds ?c0"
  proof (intro ballI)
    fix g rp assume "g \<in> set (map fst roundsParams)" "rp \<in> set (suppliedFor roundsParams g)"
    then have "set (games rp) \<subseteq> set (gamesOf roundsParams)" by (rule gamesOf_member)
    then have "set (map gameId (games rp)) \<subseteq> set (map gameId (gamesOf roundsParams))" by auto
    with assms(6) ids0 show "set (map gameId (games rp)) \<subseteq> gameIds ?c0" by simp
  qed
  from persistGrades_violation [OF nf0 assms(1) p0 assms(4) assms(5) [unfolded gamesOf_def] this]
  have "fst (persistGrades db roundsParams ga (map fst roundsParams) ([], []) ?c0) =
      Inl (UniqueViolation (gameId (hd (gamesOf roundsParams))))"
    by (simp add: gamesOf_def)
  with b show ?thesis
    by (auto simp: persistBody_def Let_def split: prod.splits sum.splits)
qed

text \<open>
  C5, as the code has it. On a database that keys \<open>games\<close> by id, running \<open>persist\<close> again
  with the same games after a run that succeeded (and held at least one game) ends in an
  error and commits nothing, so the committed tables stay as the first run left them: the
  insert of a game has no conflict clause. When no statement of the second run fails for
  a reason of its own and every grade has its attributes, the error is the unique
  violation of the first repeated game id and the transaction is rolled back in full.
\<close>

theorem rerun_fails_and_rolls_back:
  assumes "gameIdUnique db'" and "pending c = None" and "gamesOf roundsParams \<noteq> []"
    and "persist db roundsParams ctype ga c = (Inr r, c1)"
    and "persist db' roundsParams ctype' ga' c1 = (res, c2)"
  shows "(\<exists>e. res = Inl e) \<and> committed c2 = committed c1 \<and>
         (noFaultsFrom db' c1 \<and> (\<forall>g \<in> set (map fst roundsParams). ga' g \<noteq> None) \<longrightarrow>
            res = Inl (UniqueViolation (gameId (hd (gamesOf roundsParams)))) \<and>
            pending c2 = None)"
proof -
  from assms(4) have body: "persistBody db roundsParams ga c = (Inr r, c1)"
    by (auto simp: persist_def split: prod.splits sum.splits)
  from persistBody_success [OF assms(2) body]
  have p1: "pending c1 = None"
    and ids: "set (map gameId (gamesOf roundsParams)) \<subseteq> set (map game_id (gamesTable (committed c1)))"
    by simp_all
  from persistBody_repeated [OF assms(1) p1 assms(3) ids]
  have "isl (fst (persistBody db' roundsParams ga' c1))" .
  with assms(5) have err: "isl res"
    by (auto simp: persist_def isl_def split: prod.splits sum.splits)
  from persist_outcome(2) [OF p1 assms(5)] err have same: "committed c2 = committed c1" by simp
  have "res = Inl (UniqueViolation (gameId (hd (gamesOf roundsParams)))) \<and> pending c2 = None"
    if nf: "noFaultsFrom db' c1" and attrs: "\<forall>g \<in> set (map fst roundsParams). ga' g \<noteq> None"
  proof -
    obtain rb cb where b: "persistBody db' roundsParams ga' c1 = (rb, cb)"
      by (cases "persistBody db' roundsParams ga' c1")
    from persistBody_violation [OF assms(1) p1 nf attrs assms(3) ids] b
    have rb: "rb = Inl (UniqueViolation (gameId (hd (gamesOf roundsParams))))" by simp
    from persistBody_outcome [OF p1 b] obtain new where "queryLog cb = queryLog c1 @ new"
      by blast
    with nf have "\<not> failsAt db' (length (queryLog cb))" by (simp add: noFaultsFrom_def)
    with assms(5) b rb show ?thesis
      by (auto simp: persist_def query_def Let_def logged_def)
  qed
  with err same show ?thesis by (auto simp: isl_def)
qed

lemma sample_first_run:
  "fst (persist (sampleDatabase (\<lambda>n. False) keyed) sampleRoundsParams ''DOMESTIC'' sampleAttributes
     sampleClient) =
   Inr \<lparr>persistedGradeIDs = [''g1'', ''g2''], persistedTeamIDs = [''t1'', ''t2''],
        persistedGameIDs = [''game1'', ''game2'', ''game3'']\<rparr>"
  by (simp add: persist_eval)

theorem rerun_fails_and_rolls_back_witness:
  "fst (persist (sampleDatabase (\<lambda>n. False) True) sampleRoundsParams ''DOMESTIC'' sampleAttributes
          (snd (persist (sampleDatabase (\<lambda>n. False) True) sampleRoundsParams ''DOMESTIC''
             sampleAttributes sampleClient))) = Inl (UniqueViolation ''game1'') \<and>
   committed (snd (persist (sampleDatabase (\<lambda>n. False) True) sampleRoundsParams ''DOMESTIC''
       sampleAttributes
       (snd (persist (sampleDatabase (\<lambda>n. False) True) sampleRoundsParams ''DOMESTIC''
          sampleAttributes sampleClient)))) =
     committed (snd (persist (sampleDatabase (\<lambda>n. False) True) sampleRoundsParams ''DOMESTIC''
       sampleAttributes sampleClient)) \<and>
   pending (snd (persist (sampleDatabase (\<lambda>n. False) True) sampleRoundsParams ''DOMESTIC''
       sampleAttributes
       (snd (persist (sampleDatabase (\<lambda>n. False) True) sampleRoundsParams ''DOMESTIC''
          sampleAttributes sampleClient)))) = None"
proof -
  let ?db = "sampleDatabase (\<lambda>n. False) True"
  let ?c1 = "snd (persist ?db sampleRoundsParams ''DOMESTIC'' sampleAttributes sampleClient)"
  have keyed: "gameIdUnique ?db" by (simp add: sampleDatabase_def)
  have fresh: "pending sampleClient = None" by (simp add: sampleClient_def)
  have some: "gamesOf sampleRoundsParams \<noteq> []"
    and first_id: "gameId (hd (gamesOf sampleRoundsParams)) = ''game1''"
    by (simp_all add: gamesOf_def sampleRoundsParams_def suppliedFor_def sampleGame_def)
  have first: "persist ?db sampleRoundsParams ''DOMESTIC'' sampleAttributes sampleClient =
      (Inr \<lparr>persistedGradeIDs = [''g1'', ''g2''], persistedTeamIDs = [''t1'', ''t2''],
            persistedGameIDs = [''game1'', ''game2'', ''game3'']\<rparr>, ?c1)"
    using sample_first_run [of True] by (metis prod.collapse)
  have nf: "noFaultsFrom ?db ?c1" by (simp add: noFaultsFrom_def sampleDatabase_def)
  have attrs: "\<forall>g \<in> set (map fst sampleRoundsParams). sampleAttributes g \<noteq> None"
    by (simp add: sampleRoundsParams_def sampleAttributes_def)
  from rerun_fails_and_rolls_back [OF keyed fresh some first surjective_pairing] nf attrs first_id
  show ?thesis by simp
qed

text \<open>
  C5 as the specification states it fails: the second run fails on the repeated id where
  ids are unique, and stores every game a second time where they are not.
\<close>

theorem rerun_idempotent_counterexample:
  "fst (persist (sampleDatabase (\<lambda>n. False) True) sampleRoundsParams ''DOMESTIC'' sampleAttributes
          (snd (persist (sampleDatabase (\<lambda>n. False) True) sampleRoundsParams ''DOMESTIC''
             sampleAttributes sampleClient))) = Inl (UniqueViolation ''game1'') \<and>
   map game_id (gamesTable (committed
      (snd (persist (sampleDatabase (\<lambda>n. False) False) sampleRoundsParams ''DOMESTIC''
         sampleAttributes
         (snd (persist (sampleDatabase (\<lambda>n. False) False) sampleRoundsParams ''DOMESTIC''
            sampleAttributes sampleClient)))))) =
     [''game1'', ''game2'', ''game3'', ''game1'', ''game2'', ''game3'']"
  by (simp add: persist_eval)

subsection \<open>Upserting a round\<close>

lemma current_simps [simp]:
  "current (writeTables t c) = t"
  "current (logged stmt ok c) = current c"
  "current (c\<lparr>nextRoundId := k\<rparr>) = current c"
  by (simp_all add: current_def writeTables_def logged_def split: option.splits)

lemma writeTables_nextRoundId:
  "writeTables t (c\<lparr>nextRoundId := k\<rparr>) = (writeTables t c)\<lparr>nextRoundId := k\<rparr>"
  by (simp add: writeTables_def split: option.splits)

lemma sameRoundKey_iff: "sameRoundKey g n r \<longleftrightarrow> (grade_id r, sequence_no r) = (g, n)"
  by (auto simp: sameRoundKey_def)

lemma filter_distinct_key:
  "distinct (map k xs) \<Longrightarrow> x \<in> set xs \<Longrightarrow> filter (\<lambda>y. k y = k x) xs = [x]"
proof (induction xs)
  case Nil
  then show ?case by simp
next
  case (Cons a xs)
  show ?case
  proof (cases "a = x")
    case True
    with Cons.prems(1) have "k x \<notin> k ` set xs" by simp
    then have "filter (\<lambda>y. k y = k x) xs = []"
      unfolding filter_empty_conv by (metis imageI)
    with True show ?thesis by simp
  next
    case False
    with Cons.prems have "x \<in> set xs" "k a \<noteq> k x" by auto
    with Cons.IH Cons.prems(1) show ?thesis by simp
  qed
qed

lemma filter_sameRoundKey:
  assumes "distinct (roundKeys t)" and "stored \<in> set (rounds t)" and "sameRoundKey g n stored"
  shows "filter (sameRoundKey g n) (rounds t) = [stored]"
proof -
  from assms(1) have "distinct (map (\<lambda>r. (grade_id r, sequence_no r)) (rounds t))"
    by (simp add: roundKeys_def)
  from filter_distinct_key [OF this assms(2)] assms(3) show ?thesis
    by (simp add: sameRoundKey_def cong: filter_cong)
qed

lemma query_CreateRound_existing:
  assumes "query db (CreateRound g n d) c = (Inr r, c')"
    and "filter (sameRoundKey g n) (rounds (current c)) = [stored]"
  shows "filter (sameRoundKey g n) (rounds (current c')) = [stored\<lparr>provisional_date := d\<rparr>] \<and>
         length (rounds (current c')) = length (rounds (current c)) \<and>
         roundKeys (current c') = roundKeys (current c)"
proof -
  have "stored \<in> set (filter (sameRoundKey g n) (rounds (current c)))"
    by (simp add: assms(2))
  then have "stored \<in> set (rounds (current c))" "sameRoundKey g n stored"
    by simp_all
  then obtain r0 where f: "find (sameRoundKey g n) (rounds (current c)) = Some r0"
    by (cases "find (sameRoundKey g n) (rounds (current c))") (auto simp: find_None_iff)
  let ?f = "\<lambda>x. if sameRoundKey g n x then x\<lparr>provisional_date := d\<rparr> else x"
  from assms(1) f have cur: "rounds (current c') = map ?f (rounds (current c))"
    by (auto simp: query_def Let_def split: if_splits)
  have key: "\<And>x. sameRoundKey g n (?f x) = sameRoundKey g n x"
    by (simp add: sameRoundKey_def)
  have "filter (sameRoundKey g n) (map ?f (rounds (current c))) =
      map ?f (filter (sameRoundKey g n) (rounds (current c)))"
    by (simp add: filter_map comp_def key)
  with assms(2) cur \<open>sameRoundKey g n stored\<close> show ?thesis
    by (simp add: roundKeys_def comp_def sameRoundKey_def cong: map_cong)
qed

lemma query_CreateRound_upserts:
  assumes "query db (CreateRound g n d) c = (Inr r, c')" and "distinct (roundKeys (current c))"
  shows "distinct (roundKeys (current c')) \<and>
         (\<exists>stored. filter (sameRoundKey g n) (rounds (current c')) = [stored] \<and> provisional_date stored = d)"
proof (cases "find (sameRoundKey g n) (rounds (current c))")
  case None
  then have no: "\<forall>x \<in> set (rounds (current c)). \<not> sameRoundKey g n x"
    by (simp add: find_None_iff)
  let ?new = "\<lparr>round_id = nextRoundId c, grade_id = g, sequence_no = n, provisional_date = d\<rparr>"
  from assms(1) None have cur: "rounds (current c') = rounds (current c) @ [?new]"
    by (auto simp: query_def Let_def writeTables_nextRoundId split: if_splits)
  from no have "filter (sameRoundKey g n) (rounds (current c)) = []"
    by (simp add: filter_empty_conv)
  moreover from no have "(g, n) \<notin> set (roundKeys (current c))"
    by (auto simp: roundKeys_def sameRoundKey_def)
  ultimately show ?thesis using cur assms(2)
    by (simp add: roundKeys_def sameRoundKey_def)
next
  case (Some r0)
  then have "r0 \<in> set (rounds (current c))" "sameRoundKey g n r0"
    by (auto simp: find_Some_iff)
  from filter_sameRoundKey [OF assms(2) this]
  have "filter (sameRoundKey g n) (rounds (current c)) = [r0]" .
  from query_CreateRound_existing [OF assms(1) this] assms(2) show ?thesis by simp
qed

lemma query_CreateGame_rounds:
  "query db (CreateGame gid rid home away d pds) c = (res, c') \<Longrightarrow>
   rounds (current c') = rounds (current c)"
  by (auto simp: query_def Let_def split: if_splits)

lemma persistGames_rounds:
  "persistGames db rid gs acc c = (res, c') \<Longrightarrow> rounds (current c') = rounds (current c)"
proof (induction gs arbitrary: acc c)
  case Nil
  then show ?case by simp
next
  case (Cons g gs)
  obtain gameIDs tIDs where acc: "acc = (gameIDs, tIDs)" by (cases acc)
  let ?stmt = "CreateGame (gameId g) rid (homeTeamID g) (awayTeamID g) (gameDate g)
      (case provisionalDates g of Some ds \<Rightarrow> ds | None \<Rightarrow> [])"
  obtain r1 c1 where q: "query db ?stmt c = (r1, c1)" by (cases "query db ?stmt c")
  from q have same: "rounds (current c1) = rounds (current c)" by (rule query_CreateGame_rounds)
  show ?case
  proof (cases r1)
    case (Inl e)
    with Cons.prems q acc same show ?thesis by simp
  next
    case (Inr rows)
    with Cons.prems q acc same Cons.IH show ?thesis
      by (cases rows) auto
  qed
qed

lemma persistRound_upserts:
  assumes "persistRound db g rp c = (Inr x, c')" and "distinct (roundKeys (current c))"
  shows "distinct (roundKeys (current c')) \<and>
         (\<exists>stored. filter (sameRoundKey g (sequenceNo (roundInfo rp))) (rounds (current c')) = [stored] \<and>
            provisional_date stored = provisionalDate (roundInfo rp))"
proof -
  from assms(1) obtain rid c1 where
    q: "query db (CreateRound g (sequenceNo (roundInfo rp)) (provisionalDate (roundInfo rp))) c =
       (Inr (RoundIdRow rid), c1)"
    and rest: "persistGames db rid (games rp) ([], []) c1 = (Inr x, c')"
    by (rule persistRound_cases)
  from persistGames_rounds [OF rest] have "rounds (current c') = rounds (current c1)" .
  with query_CreateRound_upserts [OF q assms(2)] show ?thesis
    by (simp add: roundKeys_def)
qed

lemma persistRound_existing:
  assumes "persistRound db g rp c = (Inr x, c')"
    and "filter (sameRoundKey g (sequenceNo (roundInfo rp))) (rounds (current c)) = [stored]"
  shows "filter (sameRoundKey g (sequenceNo (roundInfo rp))) (rounds (current c')) =
           [stored\<lparr>provisional_date := provisionalDate (roundInfo rp)\<rparr>] \<and>
         length (rounds (current c')) = length (rounds (current c))"
proof -
  from assms(1) obtain rid c1 where
    q: "query db (CreateRound g (sequenceNo (roundInfo rp)) (provisionalDate (roundInfo rp))) c =
       (Inr (RoundIdRow rid), c1)"
    and rest: "persistGames db rid (games rp) ([], []) c1 = (Inr x, c')"
    by (rule persistRound_cases)
  from persistGames_rounds [OF rest] have "rounds (current c') = rounds (current c1)" .
  with query_CreateRound_existing [OF q assms(2)] show ?thesis by simp
qed

text \<open>
  C6. On a \<open>rounds\<close> table with at most one row per (grade id, sequence number), persisting
  a round twice for the same grade and sequence number leaves exactly one row for that key
  after the first run, holding the first date, and exactly one row after the second, the
  same row holding the later date; the second run adds no row.
\<close>

theorem round_upsert_keeps_one_row:
  assumes "distinct (roundKeys (current c))"
    and "persistRound db g rp1 c = (Inr x1, c1)"
    and "persistRound db g rp2 c1 = (Inr x2, c2)"
    and "sequenceNo (roundInfo rp1) = sequenceNo (roundInfo rp2)"
  shows "\<exists>stored. filter (sameRoundKey g (sequenceNo (roundInfo rp1))) (rounds (current c1)) = [stored] \<and>
           provisional_date stored = provisionalDate (roundInfo rp1) \<and>
           filter (sameRoundKey g (sequenceNo (roundInfo rp1))) (rounds (current c2)) =
             [stored\<lparr>provisional_date := provisionalDate (roundInfo rp2)\<rparr>] \<and>
           length (rounds (current c2)) = length (rounds (current c1))"
proof -
  from persistRound_upserts [OF assms(2,1)] obtain stored where
    stored: "filter (sameRoundKey g (sequenceNo (roundInfo rp1))) (rounds (current c1)) = [stored]"
      "provisional_date stored = provisionalDate (roundInfo rp1)"
    by blast
  from stored(1) assms(4)
  have "filter (sameRoundKey g (sequenceNo (roundInfo rp2))) (rounds (current c1)) = [stored]" by simp
  from persistRound_existing [OF assms(3) this] stored assms(4) show ?thesis by simp
qed

lemma sample_first_upsert:
  "fst (persistRound (sampleDatabase (\<lambda>n. False) True) ''g1'' firstRound sampleClient) = Inr ([], [])"
  by (simp add: persistRound_def query_def Let_def sampleDatabase_def firstRound_def
      sampleClient_def sampleTables_def current_def)

lemma sample_later_upsert:
  "fst (persistRound (sampleDatabase (\<lambda>n. False) True) ''g1'' laterRound
     (snd (persistRound (sampleDatabase (\<lambda>n. False) True) ''g1'' firstRound sampleClient))) =
   Inr ([], [])"
  by (simp add: persistRound_def query_def Let_def sampleDatabase_def firstRound_def laterRound_def
      sampleClient_def sampleTables_def current_def writeTables_def logged_def sameRoundKey_def)

theorem round_upsert_keeps_one_row_witness:
  "\<exists>stored. filter (sameRoundKey ''g1'' 1)
       (rounds (current (snd (persistRound (sampleDatabase (\<lambda>n. False) True) ''g1'' laterRound
          (snd (persistRound (sampleDatabase (\<lambda>n. False) True) ''g1'' firstRound sampleClient)))))) =
     [stored] \<and> provisional_date stored = ''2025-03-22''"
proof -
  let ?db = "sampleDatabase (\<lambda>n. False) True"
  let ?c1 = "snd (persistRound ?db ''g1'' firstRound sampleClient)"
  let ?c2 = "snd (persistRound ?db ''g1'' laterRound ?c1)"
  have keyed: "distinct (roundKeys (current sampleClient))"
    by (simp add: roundKeys_def current_def sampleClient_def sampleTables_def)
  have one: "persistRound ?db ''g1'' firstRound sampleClient = (Inr ([], []), ?c1)"
    using sample_first_upsert by (metis prod.collapse)
  have two: "persistRound ?db ''g1'' laterRound ?c1 = (Inr ([], []), ?c2)"
    using sample_later_upsert by (metis prod.collapse)
  have same: "sequenceNo (roundInfo firstRound) = sequenceNo (roundInfo laterRound)"
    by (simp add: firstRound_def laterRound_def)
  from round_upsert_keeps_one_row [OF keyed one two same]
  show ?thesis by (auto simp: firstRound_def laterRound_def)
qed

end
